theory Spec2Isabelle
  imports Complex_Main "HOL-Library.Word"
begin

section \<open>Data model\<close>

text \<open>The members keep their names without the trailing underscore of the sources
  (\<open>func_\<close> is \<open>func\<close>); \<open>next_\<close> is \<open>next_obj\<close>, \<open>top_\<close> is \<open>stack_top\<close>, and the
  members \<open>register_\<close> and \<open>token_\<close> of \<open>NameReg\<close> are \<open>nr_register\<close> and
  \<open>nr_token\<close>. A \<open>double\<close> is modelled by a real number and an \<open>int\<close> by an integer.\<close>

subsection \<open>GC objects (GCObject.h)\<close>

type_synonym addr = nat

datatype GCGeneration = GCGen0 | GCGen1 | GCGen2

datatype GCFlag = GCFlag_White | GCFlag_Black

text \<open>Instructions. Modelled from the spec: the Instruction class is not among the sources;
  the four encodings are kept as the constructors the visitor calls, with their operands.\<close>

datatype OpType = OpType_SetTop | OpType_Move | OpType_LoadConst | OpType_GetUpTable | OpType_Call

datatype Instruction =
    ACode OpType int
  | ABCode OpType int int
  | ABCCode OpType int int int
  | AsBxCode OpType int int

text \<open>Modelled from the spec: the Function class is not among the sources. A prototype owns
  its instructions (each with its ln), two constant pools, the superior back-reference,
  the module name and level, and the next-register watermark. An interned \<open>String *\<close> is
  modelled by its content, since the interner keeps one object per content.\<close>

record Function =
  module :: string
  level :: int
  superior :: "addr option"
  opcodes :: "(Instruction \<times> int) list"
  const_numbers :: "real list"
  const_strings :: "string list"
  next_register :: int

datatype UpvalueType = Stack | Upvalue

text \<open>Modelled from the spec: the Closure class is not among the sources.\<close>

record Closure =
  prototype :: "addr option"
  upvalues :: "(addr \<times> UpvalueType) list"

datatype ObjBody = ObjTable | ObjFunction Function | ObjClosure Closure | ObjString string

record GCObject =
  next_obj :: "addr option"
  generation :: GCGeneration
  gc_flag :: GCFlag
  body :: ObjBody

record GenInfo =
  gen :: "addr option"
  count :: "32 word"
  threshold_count :: "32 word"

text \<open>The collector: the three generations of the class declaration, and the store of the
  objects it owns (\<open>fresh\<close> is the address the next allocation returns).\<close>

record GC =
  heap :: "addr \<Rightarrow> GCObject option"
  fresh :: addr
  gen0 :: GenInfo
  gen1 :: GenInfo
  gen2 :: GenInfo
  barriered :: "addr list"

text \<open>Modelled from the spec: GC.cpp is not among the sources. \<open>SetObjectGen\<close> places the
  object in the generation the caller gave: it records the generation in the object, links
  the object at the head of that generation's list and increments its count.\<close>

definition gen_info :: "GCGeneration \<Rightarrow> GC \<Rightarrow> GenInfo" where
  "gen_info gn g = (case gn of GCGen0 \<Rightarrow> gen0 g | GCGen1 \<Rightarrow> gen1 g | GCGen2 \<Rightarrow> gen2 g)"

definition set_gen_info :: "GCGeneration \<Rightarrow> GenInfo \<Rightarrow> GC \<Rightarrow> GC" where
  "set_gen_info gn gi g =
     (case gn of GCGen0 \<Rightarrow> g\<lparr>gen0 := gi\<rparr> | GCGen1 \<Rightarrow> g\<lparr>gen1 := gi\<rparr> | GCGen2 \<Rightarrow> g\<lparr>gen2 := gi\<rparr>)"

definition SetObjectGen :: "addr \<Rightarrow> ObjBody \<Rightarrow> GCGeneration \<Rightarrow> GC \<Rightarrow> GC" where
  "SetObjectGen a b gn g =
     (let gi = gen_info gn g;
          ob = \<lparr>next_obj = gen gi, generation = gn, gc_flag = GCFlag_White, body = b\<rparr>
      in set_gen_info gn (gi\<lparr>gen := Some a, count := count gi + 1\<rparr>)
           (g\<lparr>heap := (heap g)(a \<mapsto> ob)\<rparr>))"

definition gc_new :: "ObjBody \<Rightarrow> GCGeneration \<Rightarrow> GC \<Rightarrow> addr \<times> GC" where
  "gc_new b gn g = (fresh g, SetObjectGen (fresh g) b gn (g\<lparr>fresh := Suc (fresh g)\<rparr>))"

definition empty_Function :: Function where
  "empty_Function = \<lparr>module = [], level = 0, superior = None, opcodes = [],
     const_numbers = [], const_strings = [], next_register = 0\<rparr>"

definition empty_Closure :: Closure where
  "empty_Closure = \<lparr>prototype = None, upvalues = []\<rparr>"

text \<open>Modelled from the spec: the bodies of the allocators are not among the sources; each
  returns a new object placed in the generation of its argument. The default arguments
  are those of the declarations (\<open>NewTable(GCGeneration gen = GCGen0)\<close>,
  \<open>NewFunction(GCGeneration gen = GCGen2)\<close>, \<open>NewClosure(GCGeneration gen = GCGen0)\<close>,
  \<open>NewString(GCGeneration gen = GCGen0)\<close>): \<open>None\<close> is a call without the argument.\<close>

definition NewTable :: "GCGeneration option \<Rightarrow> GC \<Rightarrow> addr \<times> GC" where
  "NewTable gn g = gc_new ObjTable (case gn of None \<Rightarrow> GCGen0 | Some g \<Rightarrow> g) g"

definition NewFunction :: "GCGeneration option \<Rightarrow> GC \<Rightarrow> addr \<times> GC" where
  "NewFunction gn g =
     gc_new (ObjFunction empty_Function) (case gn of None \<Rightarrow> GCGen2 | Some g \<Rightarrow> g) g"

definition NewClosure :: "GCGeneration option \<Rightarrow> GC \<Rightarrow> addr \<times> GC" where
  "NewClosure gn g =
     gc_new (ObjClosure empty_Closure) (case gn of None \<Rightarrow> GCGen0 | Some g \<Rightarrow> g) g"

definition NewString :: "GCGeneration option \<Rightarrow> GC \<Rightarrow> addr \<times> GC" where
  "NewString gn g = gc_new (ObjString []) (case gn of None \<Rightarrow> GCGen0 | Some g \<Rightarrow> g) g"

subsection \<open>The interpreter state\<close>

text \<open>Modelled from the spec: State.h and Value.h are not among the sources. The operand
  stack is a sequence of slots of tagged values with a movable top cursor; the state gives
  the collector and the global environment table.\<close>

datatype Value =
    ValueT_Nil
  | ValueT_Bool bool
  | ValueT_Number real
  | ValueT_String addr
  | ValueT_Table addr
  | ValueT_Closure addr

record OperandStack =
  slots :: "nat \<Rightarrow> Value"
  stack_top :: nat

record State =
  gc :: GC
  global :: addr
  stack :: OperandStack

subsection \<open>Tokens and the syntax tree\<close>

text \<open>Modelled from the spec: the token and syntax tree declarations are not among the
  sources. The fields are the ones the visitor reads; a node the visitor does not descend
  into carries none. \<open>Chunk\<close> is the root of a compilation unit.\<close>

datatype Token = Token_Number | Token_String | Token_Id | Token_Other

record TokenDetail =
  token :: Token
  number :: real
  str :: string
  line :: int

datatype FuncCallArgsType = ArgString | ArgTable | ArgExpList

datatype SyntaxTree =
    Block "SyntaxTree list" "SyntaxTree option"
  | ReturnStatement
  | BreakStatement
  | DoStatement
  | WhileStatement
  | RepeatStatement
  | IfStatement
  | ElseIfStatement
  | ElseStatement
  | NumericForStatement
  | GenericForStatement
  | FunctionStatement
  | FunctionName
  | LocalFunctionStatement
  | LocalNameListStatement SyntaxTree "SyntaxTree option"
  | AssignmentStatement
  | VarList
  | Terminator TokenDetail
  | BinaryExpression
  | UnaryExpression
  | FunctionBody
  | ParamList
  | NameList "TokenDetail list"
  | TableDefine
  | TableIndexField
  | TableNameField
  | TableArrayField
  | IndexAccessor
  | MemberAccessor
  | NormalFuncCall SyntaxTree SyntaxTree
  | MemberFuncCall
  | FuncCallArgs FuncCallArgsType "SyntaxTree option"
  | ExpressionList "SyntaxTree list"

datatype Chunk = Chunk SyntaxTree string

subsection \<open>Scopes (Visitor.cpp)\<close>

record ScopeName =
  name :: string
  register :: int

text \<open>A \<open>NameScope\<close> lives on the call stack of the visitor and points to the previous
  one; \<open>current_scope\<close> is the chain of the scopes from the innermost one, and the
  empty list is the null pointer.\<close>

record NameScope =
  start :: nat
  owner :: "addr option"

record ScopeNameList =
  name_list :: "ScopeName list"
  current_scope :: "NameScope list"

record NameReg =
  nr_register :: int
  nr_token :: TokenDetail

record FunctionGenerateState =
  names_register :: "NameReg list"
  exp_value_count :: "int list"
  exp_list_value_count :: "int list"

text \<open>The visitor. \<open>func\<close> points to a function object of the collector's store;
  \<open>func_state\<close> points to an element of \<open>gen_state\<close> and is modelled by its index.\<close>

record CodeGenerateVisitor =
  state :: State
  scope_name_list :: ScopeNameList
  gen_state :: "FunctionGenerateState list"
  func :: "addr option"
  func_state :: "nat option"

datatype cg_error = NullDereference | AssertionFailed | OutOfRange

type_synonym 'a result = "cg_error + 'a"

section \<open>Operations\<close>

subsection \<open>The prototype under generation\<close>

text \<open>Modelled from the spec: the methods of the Function class. \<open>GetNextRegister\<close> peeks
  the watermark, \<open>AllocaNextRegister\<close> reserves and bumps, \<open>SetNextRegister\<close> restores;
  a constant pool is indexed by insertion order and holds each value once.\<close>

definition GetNextRegister :: "Function \<Rightarrow> int" where
  "GetNextRegister f = next_register f"

definition AllocaNextRegister :: "Function \<Rightarrow> int \<times> Function" where
  "AllocaNextRegister f = (next_register f, f\<lparr>next_register := next_register f + 1\<rparr>)"

definition SetNextRegister :: "int \<Rightarrow> Function \<Rightarrow> Function" where
  "SetNextRegister r f = f\<lparr>next_register := r\<rparr>"

definition AddInstruction :: "Instruction \<Rightarrow> int \<Rightarrow> Function \<Rightarrow> Function" where
  "AddInstruction i lineno f = f\<lparr>opcodes := opcodes f @ [(i, lineno)]\<rparr>"

fun pool_index :: "'a list \<Rightarrow> 'a \<Rightarrow> nat option" where
  "pool_index [] x = None"
| "pool_index (y # ys) x = (if y = x then Some 0 else map_option Suc (pool_index ys x))"

definition AddConstNumber :: "real \<Rightarrow> Function \<Rightarrow> int \<times> Function" where
  "AddConstNumber n f =
     (case pool_index (const_numbers f) n of
        Some i \<Rightarrow> (int i, f)
      | None \<Rightarrow> (int (length (const_numbers f)), f\<lparr>const_numbers := const_numbers f @ [n]\<rparr>))"

definition AddConstString :: "string \<Rightarrow> Function \<Rightarrow> int \<times> Function" where
  "AddConstString s f =
     (case pool_index (const_strings f) s of
        Some i \<Rightarrow> (int i, f)
      | None \<Rightarrow> (int (length (const_strings f)), f\<lparr>const_strings := const_strings f @ [s]\<rparr>))"

definition SetBaseInfo :: "string \<Rightarrow> int \<Rightarrow> Function \<Rightarrow> Function" where
  "SetBaseInfo m l f = f\<lparr>module := m, level := l\<rparr>"

definition SetSuperior :: "addr option \<Rightarrow> Function \<Rightarrow> Function" where
  "SetSuperior s f = f\<lparr>superior := s\<rparr>"

text \<open>Modelled from the spec: the macros \<open>EXP_VALUE_COUNT_ANY\<close> and \<open>ENV_TABLE_INDEX\<close>
  are not among the sources; the first is the reserved sentinel of a signed count, the
  second the index of the environment table, the sole upvalue of the top-level closure.\<close>

definition EXP_VALUE_COUNT_ANY :: int where
  "EXP_VALUE_COUNT_ANY = - 1"

definition ENV_TABLE_INDEX :: int where
  "ENV_TABLE_INDEX = 0"

subsection \<open>NameScope\<close>

definition NameScope_enter :: "addr option \<Rightarrow> ScopeNameList \<Rightarrow> ScopeNameList result" where
  "NameScope_enter ow l =
     (case ow of
        Some f \<Rightarrow> Inr (l\<lparr>current_scope := \<lparr>start = length (name_list l), owner = Some f\<rparr> # current_scope l\<rparr>)
      | None \<Rightarrow>
          (case current_scope l of
             [] \<Rightarrow> Inl NullDereference
           | p # _ \<Rightarrow> Inr (l\<lparr>current_scope := \<lparr>start = length (name_list l), owner = owner p\<rparr> # current_scope l\<rparr>)))"

text \<open>\<open>std::vector::resize\<close>: a shorter list is filled with default-constructed names.\<close>

definition resize :: "nat \<Rightarrow> ScopeName list \<Rightarrow> ScopeName list" where
  "resize n xs = take n xs @ replicate (n - length xs) \<lparr>name = [], register = 0\<rparr>"

definition NameScope_exit :: "ScopeNameList \<Rightarrow> ScopeNameList result" where
  "NameScope_exit l =
     (case current_scope l of
        [] \<Rightarrow> Inl NullDereference
      | s # prev \<Rightarrow> Inr (l\<lparr>name_list := resize (start s) (name_list l), current_scope := prev\<rparr>))"

fun find_name :: "ScopeName list \<Rightarrow> string \<Rightarrow> int option" where
  "find_name [] n = None"
| "find_name (x # xs) n = (if name x = n then Some (register x) else find_name xs n)"

definition IsBelongsToScope :: "ScopeName list \<Rightarrow> NameScope \<Rightarrow> string \<Rightarrow> int option" where
  "IsBelongsToScope names s n = find_name (drop (start s) names) n"

definition GetNameRegister :: "ScopeName list \<Rightarrow> NameScope \<Rightarrow> string \<Rightarrow> int" where
  "GetNameRegister names s n = (case IsBelongsToScope names s n of Some r \<Rightarrow> r | None \<Rightarrow> - 1)"

definition AddScopeName :: "string \<Rightarrow> int \<Rightarrow> ScopeNameList \<Rightarrow> (bool \<times> int \<times> ScopeNameList) result" where
  "AddScopeName n reg l =
     (case current_scope l of
        [] \<Rightarrow> Inl NullDereference
      | s # _ \<Rightarrow>
          (case IsBelongsToScope (name_list l) s n of
             Some r \<Rightarrow> Inr (False, r, l)
           | None \<Rightarrow> Inr (True, reg, l\<lparr>name_list := name_list l @ [\<lparr>name = n, register = reg\<rparr>]\<rparr>)))"

fun GetBlongsToScope :: "ScopeName list \<Rightarrow> NameScope list \<Rightarrow> string \<Rightarrow> NameScope option" where
  "GetBlongsToScope names [] n = None"
| "GetBlongsToScope names (s # prev) n =
     (case IsBelongsToScope names s n of
        Some r \<Rightarrow> Some s
      | None \<Rightarrow> GetBlongsToScope names prev n)"

subsection \<open>FunctionGenerateState and GenerateState\<close>

definition PushExpValueCount :: "int \<Rightarrow> FunctionGenerateState \<Rightarrow> FunctionGenerateState" where
  "PushExpValueCount c fs = fs\<lparr>exp_value_count := c # exp_value_count fs\<rparr>"

definition PopExpValueCount :: "FunctionGenerateState \<Rightarrow> int \<times> FunctionGenerateState" where
  "PopExpValueCount fs =
     (case exp_value_count fs of
        [] \<Rightarrow> (0, fs)
      | r # rest \<Rightarrow> (r, fs\<lparr>exp_value_count := rest\<rparr>))"

definition PushExpListValueCount :: "int \<Rightarrow> FunctionGenerateState \<Rightarrow> FunctionGenerateState" where
  "PushExpListValueCount c fs = fs\<lparr>exp_list_value_count := c # exp_list_value_count fs\<rparr>"

definition PopExpListValueCount :: "FunctionGenerateState \<Rightarrow> int \<times> FunctionGenerateState" where
  "PopExpListValueCount fs =
     (case exp_list_value_count fs of
        [] \<Rightarrow> (0, fs)
      | r # rest \<Rightarrow> (r, fs\<lparr>exp_list_value_count := rest\<rparr>))"

definition new_FunctionGenerateState :: FunctionGenerateState where
  "new_FunctionGenerateState =
     \<lparr>names_register = [], exp_value_count = [], exp_list_value_count = []\<rparr>"

definition PushFunctionState :: "FunctionGenerateState list \<Rightarrow> nat \<times> FunctionGenerateState list" where
  "PushFunctionState fss = (length fss, fss @ [new_FunctionGenerateState])"

definition PopFunctionState :: "FunctionGenerateState list \<Rightarrow> FunctionGenerateState list" where
  "PopFunctionState fss = butlast fss"

subsection \<open>Errors as values\<close>

text \<open>A failed \<open>assert\<close> (the assertions are taken as compiled in), a null pointer
  that is dereferenced and a vector read out of range end the visit; \<open>and_then\<close> passes
  the first of them on.\<close>

abbreviation and_then :: "'a result \<Rightarrow> ('a \<Rightarrow> 'b result) \<Rightarrow> 'b result" where
  "and_then r k \<equiv> (case r of Inl e \<Rightarrow> Inl e | Inr x \<Rightarrow> k x)"

subsection \<open>The objects behind the visitor's pointers\<close>

definition get_Function :: "addr \<Rightarrow> GC \<Rightarrow> Function option" where
  "get_Function a g =
     (case heap g a of
        None \<Rightarrow> None
      | Some ob \<Rightarrow> (case body ob of ObjFunction f \<Rightarrow> Some f | _ \<Rightarrow> None))"

definition put_Function :: "addr \<Rightarrow> Function \<Rightarrow> GC \<Rightarrow> GC" where
  "put_Function a f g =
     (case heap g a of
        None \<Rightarrow> g
      | Some ob \<Rightarrow> g\<lparr>heap := (heap g)(a \<mapsto> ob\<lparr>body := ObjFunction f\<rparr>)\<rparr>)"

definition get_Closure :: "addr \<Rightarrow> GC \<Rightarrow> Closure option" where
  "get_Closure a g =
     (case heap g a of
        None \<Rightarrow> None
      | Some ob \<Rightarrow> (case body ob of ObjClosure c \<Rightarrow> Some c | _ \<Rightarrow> None))"

definition put_Closure :: "addr \<Rightarrow> Closure \<Rightarrow> GC \<Rightarrow> GC" where
  "put_Closure a c g =
     (case heap g a of
        None \<Rightarrow> g
      | Some ob \<Rightarrow> g\<lparr>heap := (heap g)(a \<mapsto> ob\<lparr>body := ObjClosure c\<rparr>)\<rparr>)"

definition cur_func :: "CodeGenerateVisitor \<Rightarrow> Function result" where
  "cur_func v =
     (case func v of
        None \<Rightarrow> Inl NullDereference
      | Some a \<Rightarrow> (case get_Function a (gc (state v)) of None \<Rightarrow> Inl NullDereference | Some f \<Rightarrow> Inr f))"

definition put_func :: "Function \<Rightarrow> CodeGenerateVisitor \<Rightarrow> CodeGenerateVisitor" where
  "put_func f v =
     (case func v of
        None \<Rightarrow> v
      | Some a \<Rightarrow> v\<lparr>state := (state v)\<lparr>gc := put_Function a f (gc (state v))\<rparr>\<rparr>)"

definition cur_fstate :: "CodeGenerateVisitor \<Rightarrow> FunctionGenerateState result" where
  "cur_fstate v =
     (case func_state v of
        None \<Rightarrow> Inl NullDereference
      | Some i \<Rightarrow> if i < length (gen_state v) then Inr (gen_state v ! i) else Inl NullDereference)"

definition put_fstate :: "FunctionGenerateState \<Rightarrow> CodeGenerateVisitor \<Rightarrow> CodeGenerateVisitor" where
  "put_fstate fs v =
     (case func_state v of
        None \<Rightarrow> v
      | Some i \<Rightarrow> v\<lparr>gen_state := (gen_state v)[i := fs]\<rparr>)"

text \<open>The calls through \<open>func_\<close> and \<open>func_state_\<close>.\<close>

definition v_GetNextRegister :: "CodeGenerateVisitor \<Rightarrow> int result" where
  "v_GetNextRegister v = and_then (cur_func v) (\<lambda>f. Inr (GetNextRegister f))"

definition v_AllocaNextRegister :: "CodeGenerateVisitor \<Rightarrow> (int \<times> CodeGenerateVisitor) result" where
  "v_AllocaNextRegister v =
     and_then (cur_func v) (\<lambda>f. case AllocaNextRegister f of (r, f') \<Rightarrow> Inr (r, put_func f' v))"

definition v_SetNextRegister :: "int \<Rightarrow> CodeGenerateVisitor \<Rightarrow> CodeGenerateVisitor result" where
  "v_SetNextRegister r v = and_then (cur_func v) (\<lambda>f. Inr (put_func (SetNextRegister r f) v))"

definition v_AddInstruction :: "Instruction \<Rightarrow> int \<Rightarrow> CodeGenerateVisitor \<Rightarrow> CodeGenerateVisitor result" where
  "v_AddInstruction i lineno v =
     and_then (cur_func v) (\<lambda>f. Inr (put_func (AddInstruction i lineno f) v))"

definition v_AddConstNumber :: "real \<Rightarrow> CodeGenerateVisitor \<Rightarrow> (int \<times> CodeGenerateVisitor) result" where
  "v_AddConstNumber n v =
     and_then (cur_func v) (\<lambda>f. case AddConstNumber n f of (i, f') \<Rightarrow> Inr (i, put_func f' v))"

definition v_AddConstString :: "string \<Rightarrow> CodeGenerateVisitor \<Rightarrow> (int \<times> CodeGenerateVisitor) result" where
  "v_AddConstString s v =
     and_then (cur_func v) (\<lambda>f. case AddConstString s f of (i, f') \<Rightarrow> Inr (i, put_func f' v))"

definition v_PushExpValueCount :: "int \<Rightarrow> CodeGenerateVisitor \<Rightarrow> CodeGenerateVisitor result" where
  "v_PushExpValueCount c v =
     and_then (cur_fstate v) (\<lambda>fs. Inr (put_fstate (PushExpValueCount c fs) v))"

definition v_PopExpValueCount :: "CodeGenerateVisitor \<Rightarrow> (int \<times> CodeGenerateVisitor) result" where
  "v_PopExpValueCount v =
     and_then (cur_fstate v) (\<lambda>fs. case PopExpValueCount fs of (r, fs') \<Rightarrow> Inr (r, put_fstate fs' v))"

definition v_PushExpListValueCount :: "int \<Rightarrow> CodeGenerateVisitor \<Rightarrow> CodeGenerateVisitor result" where
  "v_PushExpListValueCount c v =
     and_then (cur_fstate v) (\<lambda>fs. Inr (put_fstate (PushExpListValueCount c fs) v))"

definition v_PopExpListValueCount :: "CodeGenerateVisitor \<Rightarrow> (int \<times> CodeGenerateVisitor) result" where
  "v_PopExpListValueCount v =
     and_then (cur_fstate v) (\<lambda>fs. case PopExpListValueCount fs of (r, fs') \<Rightarrow> Inr (r, put_fstate fs' v))"

definition v_push_name :: "NameReg \<Rightarrow> CodeGenerateVisitor \<Rightarrow> CodeGenerateVisitor result" where
  "v_push_name nr v =
     and_then (cur_fstate v) (\<lambda>fs. Inr (put_fstate (fs\<lparr>names_register := names_register fs @ [nr]\<rparr>) v))"

definition v_clear_names :: "CodeGenerateVisitor \<Rightarrow> CodeGenerateVisitor result" where
  "v_clear_names v = and_then (cur_fstate v) (\<lambda>fs. Inr (put_fstate (fs\<lparr>names_register := []\<rparr>) v))"

section \<open>The code generator (CodeGenerateVisitor)\<close>

subsection \<open>Visit(Terminator *)\<close>

definition load_const :: "int \<Rightarrow> int \<Rightarrow> int \<Rightarrow> CodeGenerateVisitor \<Rightarrow> CodeGenerateVisitor result" where
  "load_const value_count index lineno v =
     (if value_count \<noteq> 0
      then and_then (v_AllocaNextRegister v) (\<lambda>(reg, v1).
             v_AddInstruction (ABCode OpType_LoadConst reg index) lineno v1)
      else Inr v)"

definition load_global :: "int \<Rightarrow> int \<Rightarrow> int \<Rightarrow> CodeGenerateVisitor \<Rightarrow> CodeGenerateVisitor result" where
  "load_global value_count index lineno v =
     (if value_count \<noteq> 0
      then and_then (v_AllocaNextRegister v) (\<lambda>(reg, v1).
           and_then (v_AddInstruction (ABCode OpType_LoadConst reg index) lineno v1) (\<lambda>v2.
             v_AddInstruction (ABCCode OpType_GetUpTable reg ENV_TABLE_INDEX reg) lineno v2))
      else Inr v)"

definition load_local :: "int \<Rightarrow> int \<Rightarrow> int \<Rightarrow> CodeGenerateVisitor \<Rightarrow> CodeGenerateVisitor result" where
  "load_local value_count src_reg lineno v =
     (if src_reg < 0 then Inl AssertionFailed
      else if value_count \<noteq> 0
      then and_then (v_AllocaNextRegister v) (\<lambda>(dst_reg, v1).
             v_AddInstruction (ABCode OpType_Move dst_reg src_reg) lineno v1)
      else Inr v)"

definition visit_Terminator :: "TokenDetail \<Rightarrow> CodeGenerateVisitor \<Rightarrow> CodeGenerateVisitor result" where
  "visit_Terminator t v =
     and_then (v_PopExpValueCount v) (\<lambda>(value_count, v1).
       if token t = Token_Number \<or> token t = Token_String then
         and_then (if token t = Token_Number then v_AddConstNumber (number t) v1
                   else v_AddConstString (str t) v1) (\<lambda>(index, v2).
           load_const value_count index (line t) v2)
       else if token t = Token_Id then
         (case current_scope (scope_name_list v1) of
            [] \<Rightarrow> Inl NullDereference
          | cur # prev \<Rightarrow>
              (case GetBlongsToScope (name_list (scope_name_list v1)) (cur # prev) (str t) of
                 None \<Rightarrow>
                   and_then (v_AddConstString (str t) v1) (\<lambda>(index, v2).
                     load_global value_count index (line t) v2)
               | Some s \<Rightarrow>
                   if owner s = owner cur
                   then load_local value_count
                          (GetNameRegister (name_list (scope_name_list v1)) s (str t)) (line t) v1
                   else Inl AssertionFailed))
       else Inl AssertionFailed)"

subsection \<open>Visit(NameList *)\<close>

definition add_name :: "TokenDetail \<Rightarrow> CodeGenerateVisitor \<Rightarrow> CodeGenerateVisitor result" where
  "add_name n v =
     (if token n \<noteq> Token_Id then Inl AssertionFailed
      else
        and_then (v_GetNextRegister v) (\<lambda>reg.
        and_then (AddScopeName (str n) reg (scope_name_list v)) (\<lambda>(added, reg', l).
        and_then (if added
                  then and_then (v_AllocaNextRegister (v\<lparr>scope_name_list := l\<rparr>)) (\<lambda>(r, v1). Inr v1)
                  else Inr (v\<lparr>scope_name_list := l\<rparr>)) (\<lambda>v2.
          v_push_name \<lparr>nr_register = reg', nr_token = n\<rparr> v2))))"

fun visit_NameList :: "TokenDetail list \<Rightarrow> CodeGenerateVisitor \<Rightarrow> CodeGenerateVisitor result" where
  "visit_NameList [] v = Inr v"
| "visit_NameList (n # ns) v = and_then (add_name n v) (\<lambda>v1. visit_NameList ns v1)"

subsection \<open>The statements and expressions\<close>

text \<open>The loop of \<open>Visit(LocalNameListStatement *)\<close> that sets the initial values.\<close>

fun init_locals :: "NameReg list \<Rightarrow> int \<Rightarrow> CodeGenerateVisitor \<Rightarrow> CodeGenerateVisitor result" where
  "init_locals [] exp_reg v = Inr v"
| "init_locals (nr # rest) exp_reg v =
     and_then (v_AddInstruction (ABCode OpType_Move (nr_register nr) exp_reg) (line (nr_token nr)) v)
       (\<lambda>v1. init_locals rest (exp_reg + 1) v1)"

fun visit :: "SyntaxTree \<Rightarrow> CodeGenerateVisitor \<Rightarrow> CodeGenerateVisitor result"
  and visit_statements :: "SyntaxTree list \<Rightarrow> CodeGenerateVisitor \<Rightarrow> CodeGenerateVisitor result"
  and visit_expressions :: "int \<Rightarrow> SyntaxTree list \<Rightarrow> CodeGenerateVisitor \<Rightarrow> CodeGenerateVisitor result"
where
  "visit (Block stmts ret) v =
     and_then (NameScope_enter (func v) (scope_name_list v)) (\<lambda>l.
     and_then (v_GetNextRegister (v\<lparr>scope_name_list := l\<rparr>)) (\<lambda>reg.
     and_then (visit_statements stmts (v\<lparr>scope_name_list := l\<rparr>)) (\<lambda>v1.
     and_then (case ret of None \<Rightarrow> Inr v1 | Some r \<Rightarrow> visit r v1) (\<lambda>v2.
     and_then (v_SetNextRegister reg v2) (\<lambda>v3.
     and_then (v_AddInstruction (ACode OpType_SetTop reg) 0 v3) (\<lambda>v4.
     and_then (NameScope_exit (scope_name_list v4)) (\<lambda>l'.
       Inr (v4\<lparr>scope_name_list := l'\<rparr>))))))))"
| "visit ReturnStatement v = Inr v"
| "visit BreakStatement v = Inr v"
| "visit DoStatement v = Inr v"
| "visit WhileStatement v = Inr v"
| "visit RepeatStatement v = Inr v"
| "visit IfStatement v = Inr v"
| "visit ElseIfStatement v = Inr v"
| "visit ElseStatement v = Inr v"
| "visit NumericForStatement v = Inr v"
| "visit GenericForStatement v = Inr v"
| "visit FunctionStatement v = Inr v"
| "visit FunctionName v = Inr v"
| "visit LocalFunctionStatement v = Inr v"
| "visit (LocalNameListStatement nl el) v =
     and_then (visit nl v) (\<lambda>v1.
     and_then (v_GetNextRegister v1) (\<lambda>reg.
     and_then (cur_fstate v1) (\<lambda>fs.
     and_then (case el of
                 None \<Rightarrow> Inr v1
               | Some e \<Rightarrow>
                   and_then (v_PushExpListValueCount (int (length (names_register fs))) v1)
                     (\<lambda>v'. visit e v')) (\<lambda>v2.
     and_then (cur_fstate v2) (\<lambda>fs2.
       if length (names_register fs2) < length (names_register fs) then Inl OutOfRange
       else
         and_then (init_locals (take (length (names_register fs)) (names_register fs2)) reg v2) (\<lambda>v3.
         and_then (v_clear_names v3) (\<lambda>v4.
         and_then (v_SetNextRegister reg v4) (\<lambda>v5.
           v_AddInstruction (ACode OpType_SetTop reg) 0 v5))))))))"
| "visit AssignmentStatement v = Inr v"
| "visit VarList v = Inr v"
| "visit (Terminator t) v = visit_Terminator t v"
| "visit BinaryExpression v = Inr v"
| "visit UnaryExpression v = Inr v"
| "visit FunctionBody v = Inr v"
| "visit ParamList v = Inr v"
| "visit (NameList ns) v = visit_NameList ns v"
| "visit TableDefine v = Inr v"
| "visit TableIndexField v = Inr v"
| "visit TableNameField v = Inr v"
| "visit TableArrayField v = Inr v"
| "visit IndexAccessor v = Inr v"
| "visit MemberAccessor v = Inr v"
| "visit (NormalFuncCall caller args) v =
     and_then (v_GetNextRegister v) (\<lambda>reg.
     and_then (v_PopExpValueCount v) (\<lambda>(result_count, v1).
     and_then (v_PushExpValueCount 1 v1) (\<lambda>v2.
     and_then (visit caller v2) (\<lambda>v3.
     and_then (visit args v3) (\<lambda>v4.
       v_AddInstruction (AsBxCode OpType_Call reg result_count) 0 v4)))))"
| "visit MemberFuncCall v = Inr v"
| "visit (FuncCallArgs ty arg) v =
     (if ty = ArgString \<or> ty = ArgTable then
        and_then (v_PushExpValueCount 1 v) (\<lambda>v1.
          case arg of None \<Rightarrow> Inl NullDereference | Some a \<Rightarrow> visit a v1)
      else
        (case arg of
           None \<Rightarrow> Inr v
         | Some a \<Rightarrow>
             and_then (v_PushExpListValueCount EXP_VALUE_COUNT_ANY v) (\<lambda>v1. visit a v1)))"
| "visit (ExpressionList es) v =
     and_then (v_PopExpListValueCount v) (\<lambda>(value_count, v1).
       visit_expressions value_count es v1)"
| "visit_statements [] v = Inr v"
| "visit_statements (s # ss) v = and_then (visit s v) (\<lambda>v1. visit_statements ss v1)"
| "visit_expressions value_count [] v = Inr v"
| "visit_expressions value_count (e # es) v =
     (if value_count = 0 then
        and_then (v_PushExpValueCount 0 v) (\<lambda>v1.
        and_then (visit e v1) (\<lambda>v2.
          visit_expressions value_count es v2))
      else
        and_then (v_PushExpValueCount (if es = [] then value_count else 1) v) (\<lambda>v1.
        and_then (visit e v1) (\<lambda>v2.
          visit_expressions
            (if value_count \<noteq> EXP_VALUE_COUNT_ANY
             then value_count - (if es = [] then value_count else 1) else value_count) es v2)))"

subsection \<open>Visit(Chunk *)\<close>

text \<open>Modelled from the spec: the State and Closure classes are not among the sources.
  \<open>State::NewFunction\<close> and \<open>State::NewClosure\<close> allocate through the collector with the
  default generation; \<open>SetPrototype\<close> and \<open>AddUpvalue\<close> fill the closure.\<close>

definition State_NewFunction :: "State \<Rightarrow> addr \<times> State" where
  "State_NewFunction st = (case NewFunction None (gc st) of (a, g) \<Rightarrow> (a, st\<lparr>gc := g\<rparr>))"

definition State_NewClosure :: "State \<Rightarrow> addr \<times> State" where
  "State_NewClosure st = (case NewClosure None (gc st) of (a, g) \<Rightarrow> (a, st\<lparr>gc := g\<rparr>))"

definition GetGlobal :: "State \<Rightarrow> addr" where
  "GetGlobal st = global st"

definition SetPrototype :: "addr \<Rightarrow> Closure \<Rightarrow> Closure" where
  "SetPrototype f c = c\<lparr>prototype := Some f\<rparr>"

definition AddUpvalue :: "addr \<Rightarrow> UpvalueType \<Rightarrow> Closure \<Rightarrow> Closure" where
  "AddUpvalue a k c = c\<lparr>upvalues := upvalues c @ [(a, k)]\<rparr>"

definition push_closure :: "addr \<Rightarrow> OperandStack \<Rightarrow> OperandStack" where
  "push_closure cl s = s\<lparr>slots := (slots s)(stack_top s := ValueT_Closure cl), stack_top := Suc (stack_top s)\<rparr>"

definition enter_chunk :: "string \<Rightarrow> CodeGenerateVisitor \<Rightarrow> addr \<times> CodeGenerateVisitor" where
  "enter_chunk md v =
     (case State_NewFunction (state v) of (fa, st1) \<Rightarrow>
        (case PushFunctionState (gen_state v) of (i, fss) \<Rightarrow>
           (fa, v\<lparr>state := st1\<lparr>gc := put_Function fa
                      (SetSuperior (func v) (SetBaseInfo md 0 empty_Function)) (gc st1)\<rparr>,
                  func := Some fa, gen_state := fss, func_state := Some i\<rparr>)))"

definition leave_chunk :: "addr \<Rightarrow> CodeGenerateVisitor \<Rightarrow> CodeGenerateVisitor" where
  "leave_chunk fa v =
     (case State_NewClosure (state v) of (cl, st1) \<Rightarrow>
        v\<lparr>state := st1\<lparr>gc := put_Closure cl
                     (AddUpvalue (GetGlobal st1) Stack (SetPrototype fa empty_Closure)) (gc st1),
                   stack := push_closure cl (stack st1)\<rparr>\<rparr>)"

fun visit_Chunk :: "Chunk \<Rightarrow> CodeGenerateVisitor \<Rightarrow> CodeGenerateVisitor result" where
  "visit_Chunk (Chunk block md) v =
     (case enter_chunk md v of (fa, v1) \<Rightarrow>
        and_then (visit block v1) (\<lambda>v2. Inr (leave_chunk fa v2)))"

text \<open>\<open>GenerateVisitor\<close>: a new visitor for a state.\<close>

definition GenerateVisitor :: "State \<Rightarrow> CodeGenerateVisitor" where
  "GenerateVisitor st =
     \<lparr>state = st, scope_name_list = \<lparr>name_list = [], current_scope = []\<rparr>,
      gen_state = [], func = None, func_state = None\<rparr>"

text \<open>Modelled from the spec: the constructors of GC and State are not among the sources.
  A new collector has empty generations with the initial thresholds of the class
  declaration; a new state owns a global environment table and an empty operand stack.\<close>

definition new_GC :: GC where
  "new_GC =
     \<lparr>heap = Map.empty, fresh = 0,
      gen0 = \<lparr>gen = None, count = 0, threshold_count = 512\<rparr>,
      gen1 = \<lparr>gen = None, count = 0, threshold_count = 512\<rparr>,
      gen2 = \<lparr>gen = None, count = 0, threshold_count = 0\<rparr>,
      barriered = []\<rparr>"

definition new_State :: State where
  "new_State =
     (case NewTable None new_GC of (t, g) \<Rightarrow>
        \<lparr>gc = g, global = t, stack = \<lparr>slots = (\<lambda>i. ValueT_Nil), stack_top = 0\<rparr>\<rparr>)"

text \<open>The prototype a visit of a chunk leaves in \<open>func_\<close>.\<close>

definition compiled :: "CodeGenerateVisitor result \<Rightarrow> Function option" where
  "compiled r =
     (case r of
        Inl e \<Rightarrow> None
      | Inr v \<Rightarrow> (case cur_func v of Inl e \<Rightarrow> None | Inr f \<Rightarrow> Some f))"

definition id_token :: "string \<Rightarrow> int \<Rightarrow> TokenDetail" where
  "id_token s l = \<lparr>token = Token_Id, number = 0, str = s, line = l\<rparr>"

definition number_token :: "real \<Rightarrow> int \<Rightarrow> TokenDetail" where
  "number_token n l = \<lparr>token = Token_Number, number = n, str = [], line = l\<rparr>"

definition string_token :: "string \<Rightarrow> int \<Rightarrow> TokenDetail" where
  "string_token s l = \<lparr>token = Token_String, number = 0, str = s, line = l\<rparr>"

section \<open>Notions used by the properties\<close>

text \<open>The lists of names in scope through which \<open>Visit(Terminator *)\<close> resolves an
  identifier, from the innermost scope to the outermost.\<close>

definition resolve :: "ScopeNameList \<Rightarrow> string \<Rightarrow> NameScope option" where
  "resolve l n = GetBlongsToScope (name_list l) (current_scope l) n"

text \<open>The module name, level, superior and generation of the prototype at an address.\<close>

definition fn_base :: "addr \<Rightarrow> GC \<Rightarrow> (string \<times> int \<times> addr option \<times> GCGeneration) option" where
  "fn_base a g =
     (case heap g a of
        None \<Rightarrow> None
      | Some ob \<Rightarrow>
          (case body ob of
             ObjFunction f \<Rightarrow> Some (module f, level f, superior f, generation ob)
           | _ \<Rightarrow> None))"

text \<open>What a visit below a chunk leaves alone: the visitor's pointers, the depth of the
  stack of function states, the chain of scopes and the names already in scope, the
  operand stack, the global table, the allocation cursor and the base information of
  every prototype.\<close>

definition frame :: "CodeGenerateVisitor \<Rightarrow> CodeGenerateVisitor \<Rightarrow> bool" where
  "frame v v' \<longleftrightarrow>
     func v' = func v \<and> func_state v' = func_state v \<and>
     length (gen_state v') = length (gen_state v) \<and>
     current_scope (scope_name_list v') = current_scope (scope_name_list v) \<and>
     (\<exists>ext. name_list (scope_name_list v') = name_list (scope_name_list v) @ ext) \<and>
     stack (state v') = stack (state v) \<and> global (state v') = global (state v) \<and>
     fresh (gc (state v')) = fresh (gc (state v)) \<and>
     (\<forall>a. fn_base a (gc (state v')) = fn_base a (gc (state v)))"

text \<open>The two stacks of value counts of the current function state.\<close>

definition value_counts :: "CodeGenerateVisitor \<Rightarrow> int list \<times> int list" where
  "value_counts v =
     (case cur_fstate v of
        Inl e \<Rightarrow> ([], [])
      | Inr fs \<Rightarrow> (exp_value_count fs, exp_list_value_count fs))"

text \<open>\<open>pops t = Some (k, l)\<close>: every expression position of \<open>t\<close> holds a terminator or a
  function call and every expression list position an expression list; the visit of \<open>t\<close>
  then removes \<open>k\<close> entries from \<open>exp_value_count_\<close> and \<open>l\<close> from
  \<open>exp_list_value_count_\<close>. A visitor with an empty body removes nothing.\<close>

fun pops :: "SyntaxTree \<Rightarrow> (nat \<times> nat) option"
  and pops_statements :: "SyntaxTree list \<Rightarrow> (nat \<times> nat) option"
  and pops_expressions :: "SyntaxTree list \<Rightarrow> bool"
where
  "pops (Block stmts ret) =
     (case pops_statements stmts of
        None \<Rightarrow> None
      | Some (k, l) \<Rightarrow>
          (case ret of
             None \<Rightarrow> Some (k, l)
           | Some r \<Rightarrow> (case pops r of None \<Rightarrow> None | Some (k', l') \<Rightarrow> Some (k + k', l + l'))))"
| "pops (LocalNameListStatement nl el) =
     (if pops nl = Some (0, 0) \<and> (case el of None \<Rightarrow> True | Some e \<Rightarrow> pops e = Some (0, 1))
      then Some (0, 0) else None)"
| "pops (Terminator t) = Some (1, 0)"
| "pops (NormalFuncCall caller args) =
     (if pops caller = Some (1, 0) \<and> pops args = Some (0, 0) then Some (1, 0) else None)"
| "pops (FuncCallArgs ty arg) =
     (if ty = ArgString \<or> ty = ArgTable
      then (case arg of None \<Rightarrow> None | Some a \<Rightarrow> if pops a = Some (1, 0) then Some (0, 0) else None)
      else (case arg of None \<Rightarrow> Some (0, 0) | Some a \<Rightarrow> if pops a = Some (0, 1) then Some (0, 0) else None))"
| "pops (ExpressionList es) = (if pops_expressions es then Some (0, 1) else None)"
| "pops t = Some (0, 0)"
| "pops_statements [] = Some (0, 0)"
| "pops_statements (s # ss) =
     (case pops s of
        None \<Rightarrow> None
      | Some (k, l) \<Rightarrow>
          (case pops_statements ss of None \<Rightarrow> None | Some (k', l') \<Rightarrow> Some (k + k', l + l')))"
| "pops_expressions [] = True"
| "pops_expressions (e # es) = (pops e = Some (1, 0) \<and> pops_expressions es)"

text \<open>The counts an expression list hands to its expressions, following the words of the
  specification: for each expression in order, 0 if \<open>V\<close> is 0; otherwise \<open>V\<close> for the last
  expression and 1 for an earlier one, and \<open>V\<close> is decremented by that amount unless it is
  the sentinel. The second argument is the number of expressions still to come.\<close>

fun exp_counts :: "int \<Rightarrow> nat \<Rightarrow> int list" where
  "exp_counts V 0 = []"
| "exp_counts V (Suc n) =
     (if V = 0 then 0 # exp_counts V n
      else (if n = 0 then V else 1) #
           exp_counts (if V = EXP_VALUE_COUNT_ANY then V else V - (if n = 0 then V else 1)) n)"

text \<open>Handing a count to each expression of a list, written on the visitor's state itself:
  before the visit of an expression its count is put on top of \<open>exp_value_count_\<close> of the
  function state at index \<open>i\<close>.\<close>

fun hand_counts :: "nat \<Rightarrow> (int \<times> SyntaxTree) list \<Rightarrow> CodeGenerateVisitor \<Rightarrow> CodeGenerateVisitor result" where
  "hand_counts i [] v = Inr v"
| "hand_counts i ((c, e) # r) v =
     and_then
       (visit e (v\<lparr>gen_state := (gen_state v)
          [i := (gen_state v ! i)\<lparr>exp_value_count := c # exp_value_count (gen_state v ! i)\<rparr>]\<rparr>))
       (\<lambda>v'. hand_counts i r v')"

subsection \<open>Example programs\<close>

text \<open>\<open>local a, b = 1, 2\<close>\<close>

definition local_a_b :: SyntaxTree where
  "local_a_b =
     LocalNameListStatement (NameList [id_token ''a'' 1, id_token ''b'' 1])
       (Some (ExpressionList [Terminator (number_token 1 1), Terminator (number_token 2 1)]))"

text \<open>\<open>print("hi")\<close>\<close>

definition print_hi :: SyntaxTree where
  "print_hi =
     NormalFuncCall (Terminator (id_token ''print'' 1))
       (FuncCallArgs ArgExpList (Some (ExpressionList [Terminator (string_token ''hi'' 1)])))"

text \<open>\<open>local a = <binary expression>\<close>\<close>

definition local_a_binary :: SyntaxTree where
  "local_a_binary =
     LocalNameListStatement (NameList [id_token ''a'' 1]) (Some (ExpressionList [BinaryExpression]))"

text \<open>\<open>local c = 3\<close>, on the second line\<close>

definition local_c :: SyntaxTree where
  "local_c =
     LocalNameListStatement (NameList [id_token ''c'' 2])
       (Some (ExpressionList [Terminator (number_token 3 2)]))"

text \<open>The visitor when \<open>Visit(Block *)\<close> of the block of a chunk reaches its first
  statement: the prototype and the function state of the chunk are in place and the scope
  of the block is entered.\<close>

definition at_block_start :: CodeGenerateVisitor where
  "at_block_start =
     (case enter_chunk ''main'' (GenerateVisitor new_State) of (fa, v) \<Rightarrow>
        (case NameScope_enter (func v) (scope_name_list v) of
           Inl e \<Rightarrow> v
         | Inr l \<Rightarrow> v\<lparr>scope_name_list := l\<rparr>))"

text \<open>The visitor after \<open>local a, b = 1, 2\<close> at the start of a block and the entry of
  an inner scope of the same function: \<open>a\<close> and \<open>b\<close> are names of the outer scope, the
  inner scope starts at index 2 of the name list and the watermark is 2.\<close>

definition in_inner_scope :: CodeGenerateVisitor where
  "in_inner_scope =
     (case visit local_a_b at_block_start of
        Inl e \<Rightarrow> at_block_start
      | Inr w \<Rightarrow>
          (case NameScope_enter (func w) (scope_name_list w) of
             Inl e \<Rightarrow> w
           | Inr l \<Rightarrow> w\<lparr>scope_name_list := l\<rparr>))"

section \<open>Evaluation\<close>

lemmas gc_defs = NewTable_def NewFunction_def NewClosure_def NewString_def gc_new_def
  SetObjectGen_def gen_info_def set_gen_info_def

lemmas store_defs = get_Function_def put_Function_def get_Closure_def put_Closure_def
  State_NewFunction_def State_NewClosure_def GetGlobal_def SetPrototype_def AddUpvalue_def
  push_closure_def empty_Function_def empty_Closure_def new_GC_def new_State_def

lemmas fn_defs = GetNextRegister_def AllocaNextRegister_def SetNextRegister_def
  AddInstruction_def AddConstNumber_def AddConstString_def SetBaseInfo_def SetSuperior_def

lemmas scope_defs = NameScope_enter_def NameScope_exit_def resize_def IsBelongsToScope_def
  GetNameRegister_def AddScopeName_def resolve_def

lemmas fs_defs = PushExpValueCount_def PopExpValueCount_def PushExpListValueCount_def
  PopExpListValueCount_def new_FunctionGenerateState_def PushFunctionState_def

lemmas v_defs = cur_func_def put_func_def cur_fstate_def put_fstate_def v_GetNextRegister_def
  v_AllocaNextRegister_def v_SetNextRegister_def v_AddInstruction_def v_AddConstNumber_def
  v_AddConstString_def v_PushExpValueCount_def v_PopExpValueCount_def
  v_PushExpListValueCount_def v_PopExpListValueCount_def v_push_name_def v_clear_names_def
  load_const_def load_global_def load_local_def visit_Terminator_def add_name_def
  enter_chunk_def leave_chunk_def GenerateVisitor_def compiled_def id_token_def
  number_token_def string_token_def EXP_VALUE_COUNT_ANY_def ENV_TABLE_INDEX_def

lemmas example_defs = local_a_b_def print_hi_def local_a_binary_def local_c_def
  at_block_start_def in_inner_scope_def

lemmas run_defs = gc_defs store_defs fn_defs scope_defs fs_defs v_defs example_defs

section \<open>What the operations leave alone\<close>

subsection \<open>Reading and writing through the pointers\<close>

lemma cur_func_put_func:
  "cur_func v = Inr f \<Longrightarrow> cur_func (put_func f' v) = Inr f'"
  by (auto simp: cur_func_def put_func_def get_Function_def put_Function_def
      split: option.splits ObjBody.splits)

lemma cur_fstate_put_func [simp]: "cur_fstate (put_func f v) = cur_fstate v"
  by (simp add: cur_fstate_def put_func_def split: option.splits)

lemma cur_fstate_put_fstate:
  "cur_fstate v = Inr fs \<Longrightarrow> cur_fstate (put_fstate fs' v) = Inr fs'"
  by (auto simp: cur_fstate_def put_fstate_def split: option.splits if_splits)

lemma cur_func_put_fstate [simp]: "cur_func (put_fstate fs v) = cur_func v"
  by (simp add: cur_func_def put_fstate_def split: option.splits)

lemma cur_func_scope [simp]: "cur_func (v\<lparr>scope_name_list := l\<rparr>) = cur_func v"
  by (simp add: cur_func_def split: option.splits)

lemma cur_fstate_scope [simp]: "cur_fstate (v\<lparr>scope_name_list := l\<rparr>) = cur_fstate v"
  by (simp add: cur_fstate_def split: option.splits)

lemma scope_put_func [simp]: "scope_name_list (put_func f v) = scope_name_list v"
  by (simp add: put_func_def split: option.splits)

lemma scope_put_fstate [simp]: "scope_name_list (put_fstate fs v) = scope_name_list v"
  by (simp add: put_fstate_def split: option.splits)

lemma value_counts_put_func [simp]: "value_counts (put_func f v) = value_counts v"
  by (simp add: value_counts_def)

lemma value_counts_scope [simp]: "value_counts (v\<lparr>scope_name_list := l\<rparr>) = value_counts v"
  by (simp add: value_counts_def)

lemma value_counts_put_fstate:
  "cur_fstate v = Inr fs \<Longrightarrow>
   value_counts (put_fstate fs' v) = (exp_value_count fs', exp_list_value_count fs')"
  by (simp add: value_counts_def cur_fstate_put_fstate)

subsection \<open>The frame\<close>

lemma frame_refl [simp]: "frame v v"
  by (simp add: frame_def)

lemma frame_trans: "frame v1 v2 \<Longrightarrow> frame v2 v3 \<Longrightarrow> frame v1 v3"
  by (auto simp: frame_def)

lemma frame_put_func:
  assumes "cur_func v = Inr f" "module f' = module f" "level f' = level f" "superior f' = superior f"
  shows "frame v (put_func f' v)"
  using assms
  by (auto simp: frame_def cur_func_def put_func_def get_Function_def put_Function_def fn_base_def
      split: option.splits ObjBody.splits)

lemma frame_put_fstate [simp]: "frame v (put_fstate fs v)"
  by (simp add: frame_def put_fstate_def split: option.splits)

lemma frame_scope:
  "current_scope l = current_scope (scope_name_list v) \<Longrightarrow>
   name_list l = name_list (scope_name_list v) @ ext \<Longrightarrow> frame v (v\<lparr>scope_name_list := l\<rparr>)"
  by (simp add: frame_def)

subsection \<open>The calls through the pointers\<close>

lemma v_AllocaNextRegister_Inr:
  "v_AllocaNextRegister v = Inr (r, v') \<Longrightarrow> frame v v' \<and> value_counts v' = value_counts v"
  by (auto simp: v_AllocaNextRegister_def AllocaNextRegister_def split: sum.splits intro!: frame_put_func)

lemma v_SetNextRegister_Inr:
  "v_SetNextRegister r v = Inr v' \<Longrightarrow> frame v v' \<and> value_counts v' = value_counts v"
  by (auto simp: v_SetNextRegister_def SetNextRegister_def split: sum.splits intro!: frame_put_func)

lemma v_AddInstruction_Inr:
  "v_AddInstruction i l v = Inr v' \<Longrightarrow> frame v v' \<and> value_counts v' = value_counts v"
  by (auto simp: v_AddInstruction_def AddInstruction_def split: sum.splits intro!: frame_put_func)

lemma v_AddConstNumber_Inr:
  "v_AddConstNumber n v = Inr (i, v') \<Longrightarrow> frame v v' \<and> value_counts v' = value_counts v"
  by (auto simp: v_AddConstNumber_def AddConstNumber_def split: sum.splits option.splits intro!: frame_put_func)

lemma v_AddConstString_Inr:
  "v_AddConstString s v = Inr (i, v') \<Longrightarrow> frame v v' \<and> value_counts v' = value_counts v"
  by (auto simp: v_AddConstString_def AddConstString_def split: sum.splits option.splits intro!: frame_put_func)

lemma v_PushExpValueCount_Inr:
  "v_PushExpValueCount c v = Inr v' \<Longrightarrow>
   frame v v' \<and> value_counts v' = (c # fst (value_counts v), snd (value_counts v))"
  by (auto simp: v_PushExpValueCount_def PushExpValueCount_def value_counts_def cur_fstate_put_fstate
      split: sum.splits)

lemma v_PopExpValueCount_Inr:
  "v_PopExpValueCount v = Inr (r, v') \<Longrightarrow>
   frame v v' \<and> value_counts v' = (tl (fst (value_counts v)), snd (value_counts v))"
  by (auto simp: v_PopExpValueCount_def PopExpValueCount_def value_counts_def cur_fstate_put_fstate
      split: sum.splits list.splits)

lemma v_PushExpListValueCount_Inr:
  "v_PushExpListValueCount c v = Inr v' \<Longrightarrow>
   frame v v' \<and> value_counts v' = (fst (value_counts v), c # snd (value_counts v))"
  by (auto simp: v_PushExpListValueCount_def PushExpListValueCount_def value_counts_def cur_fstate_put_fstate
      split: sum.splits)

lemma v_PopExpListValueCount_Inr:
  "v_PopExpListValueCount v = Inr (r, v') \<Longrightarrow>
   frame v v' \<and> value_counts v' = (fst (value_counts v), tl (snd (value_counts v)))"
  by (auto simp: v_PopExpListValueCount_def PopExpListValueCount_def value_counts_def cur_fstate_put_fstate
      split: sum.splits list.splits)

lemma v_push_name_Inr:
  "v_push_name nr v = Inr v' \<Longrightarrow> frame v v' \<and> value_counts v' = value_counts v"
  by (auto simp: v_push_name_def value_counts_def cur_fstate_put_fstate split: sum.splits)

lemma v_clear_names_Inr:
  "v_clear_names v = Inr v' \<Longrightarrow> frame v v' \<and> value_counts v' = value_counts v"
  by (auto simp: v_clear_names_def value_counts_def cur_fstate_put_fstate split: sum.splits)

lemma load_const_Inr:
  "load_const c i l v = Inr v' \<Longrightarrow> frame v v' \<and> value_counts v' = value_counts v"
  by (auto simp: load_const_def split: sum.splits if_splits
      dest!: v_AllocaNextRegister_Inr v_AddInstruction_Inr)
    ((blast intro: frame_trans)+)?

lemma load_global_Inr:
  "load_global c i l v = Inr v' \<Longrightarrow> frame v v' \<and> value_counts v' = value_counts v"
  by (auto simp: load_global_def split: sum.splits if_splits
      dest!: v_AllocaNextRegister_Inr v_AddInstruction_Inr)
    ((blast intro: frame_trans)+)?

lemma load_local_Inr:
  "load_local c r l v = Inr v' \<Longrightarrow> frame v v' \<and> value_counts v' = value_counts v"
  by (auto simp: load_local_def split: sum.splits if_splits
      dest!: v_AllocaNextRegister_Inr v_AddInstruction_Inr)
    ((blast intro: frame_trans)+)?

lemma visit_Terminator_Inr:
  "visit_Terminator t v = Inr v' \<Longrightarrow>
   frame v v' \<and> value_counts v' = (tl (fst (value_counts v)), snd (value_counts v))"
  by (auto simp: visit_Terminator_def split: sum.splits if_splits list.splits option.splits
      dest!: v_PopExpValueCount_Inr v_AddConstNumber_Inr v_AddConstString_Inr
        load_const_Inr load_global_Inr load_local_Inr)
    ((blast intro: frame_trans)+)?

lemma AddScopeName_Inr:
  "AddScopeName n r l = Inr (b, r', l') \<Longrightarrow>
   current_scope l' = current_scope l \<and> (\<exists>ext. name_list l' = name_list l @ ext)"
  by (auto simp: AddScopeName_def split: list.splits option.splits)

lemma add_name_Inr:
  "add_name n v = Inr v' \<Longrightarrow> frame v v' \<and> value_counts v' = value_counts v"
proof -
  assume a: "add_name n v = Inr v'"
  then obtain reg b r' l v2 where
    s: "AddScopeName (str n) reg (scope_name_list v) = Inr (b, r', l)"
    and v2: "(if b then and_then (v_AllocaNextRegister (v\<lparr>scope_name_list := l\<rparr>)) (\<lambda>(r, v1). Inr v1)
              else Inr (v\<lparr>scope_name_list := l\<rparr>)) = Inr v2"
    and p: "v_push_name \<lparr>nr_register = r', nr_token = n\<rparr> v2 = Inr v'"
    by (auto simp: add_name_def split: sum.splits if_splits)
  from s obtain ext where "current_scope l = current_scope (scope_name_list v)"
    "name_list l = name_list (scope_name_list v) @ ext"
    by (auto dest: AddScopeName_Inr)
  then have f1: "frame v (v\<lparr>scope_name_list := l\<rparr>)"
    by (rule frame_scope)
  from v2 have f2: "frame (v\<lparr>scope_name_list := l\<rparr>) v2 \<and> value_counts v2 = value_counts v"
    by (auto split: if_splits sum.splits dest!: v_AllocaNextRegister_Inr)
  from p have f3: "frame v2 v' \<and> value_counts v' = value_counts v2"
    by (rule v_push_name_Inr)
  from f1 f2 f3 show ?thesis
    by (auto intro: frame_trans)
qed

lemma visit_NameList_Inr:
  "visit_NameList ns v = Inr v' \<Longrightarrow> frame v v' \<and> value_counts v' = value_counts v"
  by (induction ns arbitrary: v) (auto split: sum.splits dest!: add_name_Inr intro: frame_trans)

lemma init_locals_Inr:
  "init_locals nrs r v = Inr v' \<Longrightarrow> frame v v' \<and> value_counts v' = value_counts v"
  by (induction nrs arbitrary: v r) (auto split: sum.splits dest!: v_AddInstruction_Inr intro: frame_trans)

section \<open>What a visit leaves alone\<close>

lemma block_frame:
  assumes "NameScope_enter (func v) (scope_name_list v) = Inr l"
    and "frame (v\<lparr>scope_name_list := l\<rparr>) v4"
    and "NameScope_exit (scope_name_list v4) = Inr l'"
  shows "l' = scope_name_list v \<and> frame v (v4\<lparr>scope_name_list := l'\<rparr>)"
proof -
  from assms(1) obtain ow where l: "l = (scope_name_list v)\<lparr>current_scope :=
      \<lparr>start = length (name_list (scope_name_list v)), owner = ow\<rparr> # current_scope (scope_name_list v)\<rparr>"
    by (auto simp: NameScope_enter_def split: option.splits list.splits)
  from assms(2) l obtain ext where
    cs: "current_scope (scope_name_list v4) =
      \<lparr>start = length (name_list (scope_name_list v)), owner = ow\<rparr> # current_scope (scope_name_list v)"
    and nl: "name_list (scope_name_list v4) = name_list (scope_name_list v) @ ext"
    by (auto simp: frame_def)
  from assms(3) cs nl have l': "l' = scope_name_list v"
    by (auto simp: NameScope_exit_def resize_def)
  from assms(2) have "frame v (v4\<lparr>scope_name_list := scope_name_list v\<rparr>)"
    by (simp add: frame_def)
  with l' show ?thesis by simp
qed

lemma visit_statements_frame:
  assumes "\<And>s v v'. s \<in> set ss \<Longrightarrow> visit s v = Inr v' \<Longrightarrow> frame v v'"
  shows "visit_statements ss v = Inr v' \<Longrightarrow> frame v v'"
  using assms
proof (induction ss arbitrary: v)
  case Nil
  then show ?case by simp
next
  case (Cons s ss)
  from Cons.prems(1) obtain v1 where s: "visit s v = Inr v1" and r: "visit_statements ss v1 = Inr v'"
    by (auto split: sum.splits)
  from s have "frame v v1" by (rule Cons.prems(2) [rotated]) simp
  moreover from r have "frame v1 v'" by (rule Cons.IH) (auto intro: Cons.prems(2))
  ultimately show ?case by (rule frame_trans)
qed

lemma visit_expressions_frame:
  assumes "\<And>e v v'. e \<in> set es \<Longrightarrow> visit e v = Inr v' \<Longrightarrow> frame v v'"
  shows "visit_expressions c es v = Inr v' \<Longrightarrow> frame v v'"
  using assms
proof (induction es arbitrary: v c)
  case Nil
  then show ?case by simp
next
  case (Cons e es)
  from Cons.prems(1) obtain k c' v1 v2 where p: "v_PushExpValueCount k v = Inr v1"
    and e: "visit e v1 = Inr v2" and r: "visit_expressions c' es v2 = Inr v'"
    by (auto split: sum.splits if_splits)
  from p have "frame v v1" by (auto dest: v_PushExpValueCount_Inr)
  moreover from e have "frame v1 v2" by (rule Cons.prems(2) [rotated]) simp
  moreover from r have "frame v2 v'" by (rule Cons.IH) (auto intro: Cons.prems(2))
  ultimately show ?case by (blast intro: frame_trans)
qed

lemma visit_frame: "visit t v = Inr v' \<Longrightarrow> frame v v'"
proof (induction t arbitrary: v v')
  case (Block stmts ret)
  from Block.prems obtain l reg v1 v2 v3 v4 l' where
    en: "NameScope_enter (func v) (scope_name_list v) = Inr l"
    and ss: "visit_statements stmts (v\<lparr>scope_name_list := l\<rparr>) = Inr v1"
    and rt: "(case ret of None \<Rightarrow> Inr v1 | Some r \<Rightarrow> visit r v1) = Inr v2"
    and sn: "v_SetNextRegister reg v2 = Inr v3"
    and ai: "v_AddInstruction (ACode OpType_SetTop reg) 0 v3 = Inr v4"
    and ex: "NameScope_exit (scope_name_list v4) = Inr l'"
    and v': "v' = v4\<lparr>scope_name_list := l'\<rparr>"
    by (auto split: sum.splits)
  from ss have "frame (v\<lparr>scope_name_list := l\<rparr>) v1"
    by (rule visit_statements_frame [rotated]) (auto intro: Block.IH(1))
  moreover from rt have "frame v1 v2"
    by (cases ret) (auto intro: Block.IH(2))
  moreover from sn have "frame v2 v3" by (auto dest: v_SetNextRegister_Inr)
  moreover from ai have "frame v3 v4" by (auto dest: v_AddInstruction_Inr)
  ultimately have "frame (v\<lparr>scope_name_list := l\<rparr>) v4"
    by (blast intro: frame_trans)
  with en ex v' show ?case by (auto dest: block_frame)
next
  case (LocalNameListStatement nl el)
  from LocalNameListStatement.prems
  obtain v1 reg v2 v3 v4 v5 and fs fs2 :: FunctionGenerateState where
    n: "visit nl v = Inr v1"
    and e: "(case el of None \<Rightarrow> Inr v1
        | Some e \<Rightarrow> and_then (v_PushExpListValueCount (int (length (names_register fs))) v1)
            (\<lambda>v'. visit e v')) = Inr v2"
    and i: "init_locals (take (length (names_register fs)) (names_register fs2)) reg v2 = Inr v3"
    and c: "v_clear_names v3 = Inr v4"
    and sn: "v_SetNextRegister reg v4 = Inr v5"
    and ai: "v_AddInstruction (ACode OpType_SetTop reg) 0 v5 = Inr v'"
    by (auto split: sum.splits if_splits)
  from n have "frame v v1" by (rule LocalNameListStatement.IH(1))
  moreover from e have "frame v1 v2"
    by (cases el) (auto split: sum.splits dest!: v_PushExpListValueCount_Inr
        intro: frame_trans LocalNameListStatement.IH(2))
  moreover from i have "frame v2 v3" by (auto dest: init_locals_Inr)
  moreover from c have "frame v3 v4" by (auto dest: v_clear_names_Inr)
  moreover from sn have "frame v4 v5" by (auto dest: v_SetNextRegister_Inr)
  moreover from ai have "frame v5 v'" by (auto dest: v_AddInstruction_Inr)
  ultimately show ?case by (blast intro: frame_trans)
next
  case (Terminator t)
  then show ?case by (auto dest: visit_Terminator_Inr)
next
  case (NameList ns)
  then show ?case by (auto dest: visit_NameList_Inr)
next
  case (NormalFuncCall caller args)
  from NormalFuncCall.prems obtain rc v1 v2 v3 v4 reg where
    po: "v_PopExpValueCount v = Inr (rc, v1)"
    and pu: "v_PushExpValueCount 1 v1 = Inr v2"
    and c: "visit caller v2 = Inr v3"
    and a: "visit args v3 = Inr v4"
    and ai: "v_AddInstruction (AsBxCode OpType_Call reg rc) 0 v4 = Inr v'"
    by (auto split: sum.splits)
  from po have "frame v v1" by (auto dest: v_PopExpValueCount_Inr)
  moreover from pu have "frame v1 v2" by (auto dest: v_PushExpValueCount_Inr)
  moreover from c have "frame v2 v3" by (rule NormalFuncCall.IH(1))
  moreover from a have "frame v3 v4" by (rule NormalFuncCall.IH(2))
  moreover from ai have "frame v4 v'" by (auto dest: v_AddInstruction_Inr)
  ultimately show ?case by (blast intro: frame_trans)
next
  case (FuncCallArgs ty arg)
  then show ?case
    by (cases arg)
      (auto split: sum.splits if_splits
        dest!: v_PushExpValueCount_Inr v_PushExpListValueCount_Inr intro: frame_trans)
next
  case (ExpressionList es)
  from ExpressionList.prems obtain c v1 where po: "v_PopExpListValueCount v = Inr (c, v1)"
    and r: "visit_expressions c es v1 = Inr v'"
    by (auto split: sum.splits)
  from po have "frame v v1" by (auto dest: v_PopExpListValueCount_Inr)
  moreover from r have "frame v1 v'"
    by (rule visit_expressions_frame [rotated]) (auto intro: ExpressionList.IH)
  ultimately show ?case by (rule frame_trans)
qed simp_all

section \<open>The value counts over a visit\<close>

lemma tl_drop1: "tl xs = drop (Suc 0) xs"
  by (simp add: drop_Suc)

lemma visit_statements_balance:
  assumes "\<And>s k l v v'. s \<in> set ss \<Longrightarrow> pops s = Some (k, l) \<Longrightarrow> visit s v = Inr v' \<Longrightarrow>
     value_counts v' = (drop k (fst (value_counts v)), drop l (snd (value_counts v)))"
  shows "pops_statements ss = Some (k, l) \<Longrightarrow> visit_statements ss v = Inr v' \<Longrightarrow>
     value_counts v' = (drop k (fst (value_counts v)), drop l (snd (value_counts v)))"
  using assms
proof (induction ss arbitrary: v k l)
  case Nil
  then show ?case by simp
next
  case (Cons s ss)
  from Cons.prems(1) obtain k1 l1 k2 l2 where s: "pops s = Some (k1, l1)"
    and ss: "pops_statements ss = Some (k2, l2)" and k: "k = k1 + k2" and l: "l = l1 + l2"
    by (auto split: option.splits)
  from Cons.prems(2) obtain v1 where v1: "visit s v = Inr v1" and r: "visit_statements ss v1 = Inr v'"
    by (auto split: sum.splits)
  have "value_counts v1 = (drop k1 (fst (value_counts v)), drop l1 (snd (value_counts v)))"
    using s v1 by (intro Cons.prems(3)) simp_all
  moreover have "value_counts v' = (drop k2 (fst (value_counts v1)), drop l2 (snd (value_counts v1)))"
    using ss r by (rule Cons.IH) (auto intro: Cons.prems(3))
  ultimately show ?case by (simp add: k l add.commute)
qed

lemma visit_expressions_balance:
  assumes "\<And>e k l v v'. e \<in> set es \<Longrightarrow> pops e = Some (k, l) \<Longrightarrow> visit e v = Inr v' \<Longrightarrow>
     value_counts v' = (drop k (fst (value_counts v)), drop l (snd (value_counts v)))"
  shows "pops_expressions es \<Longrightarrow> visit_expressions c es v = Inr v' \<Longrightarrow>
     value_counts v' = value_counts v"
  using assms
proof (induction es arbitrary: v c)
  case Nil
  then show ?case by simp
next
  case (Cons e es)
  from Cons.prems(1) have e: "pops e = Some (1, 0)" and es: "pops_expressions es"
    by simp_all
  from Cons.prems(2) obtain n c' v1 v2 where p: "v_PushExpValueCount n v = Inr v1"
    and v2: "visit e v1 = Inr v2" and r: "visit_expressions c' es v2 = Inr v'"
    by (auto split: sum.splits if_splits)
  from p have "value_counts v1 = (n # fst (value_counts v), snd (value_counts v))"
    by (auto dest: v_PushExpValueCount_Inr)
  moreover have "value_counts v2 = (drop 1 (fst (value_counts v1)), drop 0 (snd (value_counts v1)))"
    using e v2 by (intro Cons.prems(3)) simp_all
  moreover have "value_counts v' = value_counts v2"
    using es r by (rule Cons.IH) (auto intro: Cons.prems(3))
  ultimately show ?case by simp
qed

lemma visit_balance:
  "pops t = Some (k, l) \<Longrightarrow> visit t v = Inr v' \<Longrightarrow>
   value_counts v' = (drop k (fst (value_counts v)), drop l (snd (value_counts v)))"
proof (induction t arbitrary: v v' k l)
  case (Block stmts ret)
  from Block.prems(1) obtain k1 l1 k2 l2 where ps: "pops_statements stmts = Some (k1, l1)"
    and pr: "(case ret of None \<Rightarrow> Some (0, 0) | Some r \<Rightarrow> pops r) = Some (k2, l2)"
    and k: "k = k1 + k2" and l: "l = l1 + l2"
    by (auto split: option.splits)
  from Block.prems(2) obtain sl reg v1 v2 v3 v4 sl' where
    ss: "visit_statements stmts (v\<lparr>scope_name_list := sl\<rparr>) = Inr v1"
    and rt: "(case ret of None \<Rightarrow> Inr v1 | Some r \<Rightarrow> visit r v1) = Inr v2"
    and sn: "v_SetNextRegister reg v2 = Inr v3"
    and ai: "v_AddInstruction (ACode OpType_SetTop reg) 0 v3 = Inr v4"
    and v': "v' = v4\<lparr>scope_name_list := sl'\<rparr>"
    by (auto split: sum.splits)
  have "value_counts v1 = (drop k1 (fst (value_counts v)), drop l1 (snd (value_counts v)))"
    using visit_statements_balance [OF _ ps ss] Block.IH(1) by simp
  moreover have "value_counts v2 = (drop k2 (fst (value_counts v1)), drop l2 (snd (value_counts v1)))"
    using pr rt by (cases ret) (auto intro: Block.IH(2))
  moreover from sn have "value_counts v3 = value_counts v2" by (auto dest: v_SetNextRegister_Inr)
  moreover from ai have "value_counts v4 = value_counts v3" by (auto dest: v_AddInstruction_Inr)
  ultimately show ?case by (simp add: v' k l add.commute)
next
  case (LocalNameListStatement nl el)
  from LocalNameListStatement.prems(1) have pn: "pops nl = Some (0, 0)"
    and pe: "(case el of None \<Rightarrow> True | Some e \<Rightarrow> pops e = Some (0, 1))" and kl: "k = 0" "l = 0"
    by (auto split: if_splits)
  from LocalNameListStatement.prems(2)
  obtain v1 reg v2 v3 v4 v5 and fs fs2 :: FunctionGenerateState where
    n: "visit nl v = Inr v1"
    and e: "(case el of None \<Rightarrow> Inr v1
        | Some e \<Rightarrow> and_then (v_PushExpListValueCount (int (length (names_register fs))) v1)
            (\<lambda>v'. visit e v')) = Inr v2"
    and i: "init_locals (take (length (names_register fs)) (names_register fs2)) reg v2 = Inr v3"
    and c: "v_clear_names v3 = Inr v4"
    and sn: "v_SetNextRegister reg v4 = Inr v5"
    and ai: "v_AddInstruction (ACode OpType_SetTop reg) 0 v5 = Inr v'"
    by (auto split: sum.splits if_splits)
  from pn n have "value_counts v1 = value_counts v"
    by (auto dest: LocalNameListStatement.IH(1))
  moreover have "value_counts v2 = value_counts v1"
  proof (cases el)
    case None
    with e show ?thesis by simp
  next
    case (Some x)
    with e obtain w where w: "v_PushExpListValueCount (int (length (names_register fs))) v1 = Inr w"
      and x: "visit x w = Inr v2"
      by (auto split: sum.splits)
    from pe Some have "pops x = Some (0, 1)" by simp
    from LocalNameListStatement.IH(2) [OF _ this x] Some
    have "value_counts v2 = (fst (value_counts w), drop 1 (snd (value_counts w)))"
      by simp
    with w show ?thesis by (auto dest: v_PushExpListValueCount_Inr)
  qed
  moreover from i have "value_counts v3 = value_counts v2" by (auto dest: init_locals_Inr)
  moreover from c have "value_counts v4 = value_counts v3" by (auto dest: v_clear_names_Inr)
  moreover from sn have "value_counts v5 = value_counts v4" by (auto dest: v_SetNextRegister_Inr)
  moreover from ai have "value_counts v' = value_counts v5" by (auto dest: v_AddInstruction_Inr)
  ultimately show ?case by (simp add: kl)
next
  case (Terminator t)
  then show ?case by (auto dest: visit_Terminator_Inr simp: tl_drop1)
next
  case (NameList ns)
  then show ?case by (auto dest: visit_NameList_Inr)
next
  case (NormalFuncCall caller args)
  from NormalFuncCall.prems(1) have pc: "pops caller = Some (1, 0)" and pa: "pops args = Some (0, 0)"
    and kl: "k = 1" "l = 0"
    by (auto split: if_splits)
  from NormalFuncCall.prems(2) obtain rc v1 v2 v3 v4 reg where
    po: "v_PopExpValueCount v = Inr (rc, v1)"
    and pu: "v_PushExpValueCount 1 v1 = Inr v2"
    and c: "visit caller v2 = Inr v3"
    and a: "visit args v3 = Inr v4"
    and ai: "v_AddInstruction (AsBxCode OpType_Call reg rc) 0 v4 = Inr v'"
    by (auto split: sum.splits)
  from po have "value_counts v1 = (tl (fst (value_counts v)), snd (value_counts v))"
    by (auto dest: v_PopExpValueCount_Inr)
  moreover from pu have "value_counts v2 = (1 # fst (value_counts v1), snd (value_counts v1))"
    by (auto dest: v_PushExpValueCount_Inr)
  moreover from pc c have "value_counts v3 = (drop 1 (fst (value_counts v2)), drop 0 (snd (value_counts v2)))"
    by (rule NormalFuncCall.IH(1))
  moreover from pa a have "value_counts v4 = (drop 0 (fst (value_counts v3)), drop 0 (snd (value_counts v3)))"
    by (rule NormalFuncCall.IH(2))
  moreover from ai have "value_counts v' = value_counts v4" by (auto dest: v_AddInstruction_Inr)
  ultimately show ?case by (simp add: kl tl_drop1)
next
  case (FuncCallArgs ty arg)
  show ?case
  proof (cases arg)
    case None
    with FuncCallArgs.prems show ?thesis by (auto split: if_splits)
  next
    case (Some a)
    show ?thesis
    proof (cases "ty = ArgString \<or> ty = ArgTable")
      case True
      with FuncCallArgs.prems Some obtain w where pa: "pops a = Some (1, 0)" and kl: "k = 0" "l = 0"
        and w: "v_PushExpValueCount 1 v = Inr w" and a: "visit a w = Inr v'"
        by (auto split: if_splits sum.splits)
      from FuncCallArgs.IH [OF _ pa a] Some
      have "value_counts v' = (drop 1 (fst (value_counts w)), snd (value_counts w))" by simp
      with w show ?thesis by (auto dest: v_PushExpValueCount_Inr simp: kl)
    next
      case False
      with FuncCallArgs.prems Some obtain w where pa: "pops a = Some (0, 1)" and kl: "k = 0" "l = 0"
        and w: "v_PushExpListValueCount EXP_VALUE_COUNT_ANY v = Inr w" and a: "visit a w = Inr v'"
        by (auto split: if_splits sum.splits)
      from FuncCallArgs.IH [OF _ pa a] Some
      have "value_counts v' = (fst (value_counts w), drop 1 (snd (value_counts w)))" by simp
      with w show ?thesis by (auto dest: v_PushExpListValueCount_Inr simp: kl)
    qed
  qed
next
  case (ExpressionList es)
  from ExpressionList.prems(1) have pe: "pops_expressions es" and kl: "k = 0" "l = 1"
    by (auto split: if_splits)
  from ExpressionList.prems(2) obtain c v1 where po: "v_PopExpListValueCount v = Inr (c, v1)"
    and r: "visit_expressions c es v1 = Inr v'"
    by (auto split: sum.splits)
  from po have "value_counts v1 = (fst (value_counts v), tl (snd (value_counts v)))"
    by (auto dest: v_PopExpListValueCount_Inr)
  moreover have "value_counts v' = value_counts v1"
    using visit_expressions_balance [OF _ pe r] ExpressionList.IH by simp
  ultimately show ?case by (simp add: kl tl_drop1)
qed simp_all


lemma exp_counts_butlast: "set (butlast (exp_counts V n)) \<subseteq> {0, 1}"
proof (induction n arbitrary: V)
  case 0
  show ?case by simp
next
  case (Suc n)
  show ?case using Suc.IH by (cases n) (auto simp del: exp_counts.simps(2) simp add: exp_counts.simps(2) [of _ "Suc _"] exp_counts.simps(2) [of _ 0])
qed

lemma exp_counts_zero: "exp_counts 0 n = replicate n 0"
  by (induction n) simp_all

lemma exp_counts_any:
  "exp_counts EXP_VALUE_COUNT_ANY (Suc n) = replicate n 1 @ [EXP_VALUE_COUNT_ANY]"
  by (induction n) (simp_all add: EXP_VALUE_COUNT_ANY_def)

lemma exp_counts_enough:
  "exp_counts (int n + int k + 1) (Suc n) = replicate n 1 @ [int k + 1]"
proof (induction n)
  case 0
  show ?case by (simp add: EXP_VALUE_COUNT_ANY_def)
next
  case (Suc n)
  have "exp_counts (int (Suc n) + int k + 1) (Suc (Suc n)) = 1 # exp_counts (int n + int k + 1) (Suc n)"
    by (subst exp_counts.simps(2)) (simp add: EXP_VALUE_COUNT_ANY_def)
  with Suc show ?case by simp
qed

lemma exp_counts_short:
  "exp_counts (int m) (m + Suc k) = replicate m 1 @ replicate (Suc k) 0"
proof (induction m)
  case 0
  show ?case by (simp add: exp_counts_zero del: exp_counts.simps)
next
  case (Suc m)
  have "exp_counts (int (Suc m)) (Suc (m + Suc k)) = 1 # exp_counts (int m) (m + Suc k)"
    by (subst exp_counts.simps(2)) (simp add: EXP_VALUE_COUNT_ANY_def)
  with Suc show ?case by simp
qed

lemma v_PushExpValueCount_explicit:
  assumes "func_state v = Some i" "i < length (gen_state v)"
  shows "v_PushExpValueCount c v =
     Inr (v\<lparr>gen_state := (gen_state v)
        [i := (gen_state v ! i)\<lparr>exp_value_count := c # exp_value_count (gen_state v ! i)\<rparr>]\<rparr>)"
  using assms
  by (simp add: v_PushExpValueCount_def cur_fstate_def put_fstate_def PushExpValueCount_def)

lemma v_PopExpListValueCount_explicit:
  assumes "func_state v = Some i" "i < length (gen_state v)"
  shows "v_PopExpListValueCount v =
     Inr (case exp_list_value_count (gen_state v ! i) of [] \<Rightarrow> 0 | x # xs \<Rightarrow> x,
          v\<lparr>gen_state := (gen_state v)
            [i := (gen_state v ! i)\<lparr>exp_list_value_count := tl (exp_list_value_count (gen_state v ! i))\<rparr>]\<rparr>)"
proof (cases "exp_list_value_count (gen_state v ! i)")
  case Nil
  have "(gen_state v ! i)\<lparr>exp_list_value_count := []\<rparr> = gen_state v ! i"
    by (subst Nil [symmetric]) simp
  then have "(gen_state v)[i := (gen_state v ! i)\<lparr>exp_list_value_count := []\<rparr>] = gen_state v"
    by simp
  with Nil assms show ?thesis
    by (simp add: v_PopExpListValueCount_def cur_fstate_def put_fstate_def PopExpListValueCount_def)
next
  case (Cons x xs)
  with assms show ?thesis
    by (simp add: v_PopExpListValueCount_def cur_fstate_def put_fstate_def PopExpListValueCount_def)
qed

lemma visit_expressions_hand_counts:
  assumes "func_state v = Some i" "i < length (gen_state v)"
  shows "visit_expressions V es v = hand_counts i (zip (exp_counts V (length es)) es) v"
  using assms
proof (induction es arbitrary: V v)
  case Nil
  show ?case by simp
next
  case (Cons e es)
  let ?c = "if V = 0 then 0 else if es = [] then V else 1"
  let ?V' = "if V = 0 then V else if V = EXP_VALUE_COUNT_ANY then V else V - ?c"
  let ?v1 = "v\<lparr>gen_state := (gen_state v)
        [i := (gen_state v ! i)\<lparr>exp_value_count := ?c # exp_value_count (gen_state v ! i)\<rparr>]\<rparr>"
  have l: "visit_expressions V (e # es) v = and_then (visit e ?v1) (\<lambda>v2. visit_expressions ?V' es v2)"
    by (cases "V = 0"; simp add: v_PushExpValueCount_explicit [OF Cons.prems] cong: sum.case_cong)
  have r: "hand_counts i (zip (exp_counts V (length (e # es))) (e # es)) v =
      and_then (visit e ?v1) (\<lambda>v2. hand_counts i (zip (exp_counts ?V' (length es)) es) v2)"
    by (cases "V = 0"; cases "V = EXP_VALUE_COUNT_ANY"; simp cong: sum.case_cong)
  show ?case
  proof (cases "visit e ?v1")
    case (Inl x)
    with l r show ?thesis by simp
  next
    case (Inr v2)
    then have "frame ?v1 v2" by (rule visit_frame)
    with Cons.prems have "func_state v2 = Some i" "i < length (gen_state v2)"
      by (simp_all add: frame_def)
    then have "visit_expressions ?V' es v2 = hand_counts i (zip (exp_counts ?V' (length es)) es) v2"
      by (rule Cons.IH)
    with l r Inr show ?thesis by simp
  qed
qed

lemma hand_counts_placeholders:
  assumes "i < length (gen_state v)"
  shows "hand_counts i (zip cs (replicate (length cs) BinaryExpression)) v =
     Inr (v\<lparr>gen_state := (gen_state v)
        [i := (gen_state v ! i)\<lparr>exp_value_count := rev cs @ exp_value_count (gen_state v ! i)\<rparr>]\<rparr>)"
  using assms
proof (induction cs arbitrary: v)
  case Nil
  then show ?case by simp
next
  case (Cons c cs)
  then show ?case by simp
qed

lemma length_exp_counts [simp]: "length (exp_counts V n) = n"
  by (induction n arbitrary: V) simp_all

lemma value_counts_enter_chunk:
  "value_counts (snd (enter_chunk md v)) = ([], [])"
  by (simp add: enter_chunk_def value_counts_def cur_fstate_def PushFunctionState_def
      new_FunctionGenerateState_def split: prod.splits)

lemma value_counts_leave_chunk [simp]: "value_counts (leave_chunk fa v) = value_counts v"
  by (simp add: leave_chunk_def value_counts_def cur_fstate_def split: prod.splits option.splits)

section \<open>Scopes, name lists and chunks\<close>

lemma enter_exit:
  "NameScope_enter ow l = Inr l1 \<Longrightarrow> NameScope_exit (l1\<lparr>name_list := name_list l1 @ ext\<rparr>) = Inr l"
  by (auto simp: NameScope_enter_def NameScope_exit_def resize_def split: option.splits list.splits)

lemma visit_Block_scope:
  assumes "visit (Block stmts ret) v = Inr v'"
  shows "scope_name_list v' = scope_name_list v"
proof -
  from assms obtain l reg v1 v2 v3 v4 l' where
    en: "NameScope_enter (func v) (scope_name_list v) = Inr l"
    and ss: "visit_statements stmts (v\<lparr>scope_name_list := l\<rparr>) = Inr v1"
    and rt: "(case ret of None \<Rightarrow> Inr v1 | Some r \<Rightarrow> visit r v1) = Inr v2"
    and sn: "v_SetNextRegister reg v2 = Inr v3"
    and ai: "v_AddInstruction (ACode OpType_SetTop reg) 0 v3 = Inr v4"
    and ex: "NameScope_exit (scope_name_list v4) = Inr l'"
    and v': "v' = v4\<lparr>scope_name_list := l'\<rparr>"
    by (auto split: sum.splits)
  from ss have "frame (v\<lparr>scope_name_list := l\<rparr>) v1"
    by (rule visit_statements_frame [rotated]) (rule visit_frame)
  moreover from rt have "frame v1 v2"
    by (cases ret) (auto intro: visit_frame)
  moreover from sn have "frame v2 v3" by (auto dest: v_SetNextRegister_Inr)
  moreover from ai have "frame v3 v4" by (auto dest: v_AddInstruction_Inr)
  ultimately have "frame (v\<lparr>scope_name_list := l\<rparr>) v4"
    by (blast intro: frame_trans)
  with en ex v' show ?thesis by (auto dest: block_frame)
qed

lemma find_name_absent: "n \<notin> name ` set xs \<Longrightarrow> find_name xs n = None"
  by (induction xs) auto

lemma find_name_first:
  "n \<notin> name ` set pre \<Longrightarrow> find_name (pre @ \<lparr>name = n, register = r\<rparr> # post) n = Some r"
  by (induction pre) auto

lemma add_name_new:
  fixes f :: Function and fs :: FunctionGenerateState
  assumes "token n = Token_Id" "cur_func v = Inr f" "current_scope (scope_name_list v) = s # prev"
    "cur_fstate v = Inr fs" "IsBelongsToScope (name_list (scope_name_list v)) s (str n) = None"
  shows "\<exists>v'. add_name n v = Inr v' \<and>
     name_list (scope_name_list v') =
       name_list (scope_name_list v) @ [\<lparr>name = str n, register = next_register f\<rparr>] \<and>
     current_scope (scope_name_list v') = current_scope (scope_name_list v) \<and>
     cur_func v' = Inr (f\<lparr>next_register := next_register f + 1\<rparr>) \<and>
     cur_fstate v' = Inr (fs\<lparr>names_register := names_register fs @
        [\<lparr>nr_register = next_register f, nr_token = n\<rparr>]\<rparr>)"
  using assms
  by (simp add: add_name_def v_GetNextRegister_def GetNextRegister_def AddScopeName_def
      v_AllocaNextRegister_def AllocaNextRegister_def v_push_name_def
      cur_func_put_func cur_fstate_put_fstate)

lemma add_name_old:
  fixes f :: Function and fs :: FunctionGenerateState
  assumes "token n = Token_Id" "cur_func v = Inr f" "current_scope (scope_name_list v) = s # prev"
    "cur_fstate v = Inr fs" "IsBelongsToScope (name_list (scope_name_list v)) s (str n) = Some r"
  shows "\<exists>v'. add_name n v = Inr v' \<and>
     scope_name_list v' = scope_name_list v \<and>
     cur_func v' = Inr f \<and>
     cur_fstate v' = Inr (fs\<lparr>names_register := names_register fs @
        [\<lparr>nr_register = r, nr_token = n\<rparr>]\<rparr>)"
  using assms
  by (simp add: add_name_def v_GetNextRegister_def GetNextRegister_def AddScopeName_def
      v_push_name_def cur_fstate_put_fstate)

lemma length_gen_state_enter_chunk:
  "length (gen_state (snd (enter_chunk md v))) = Suc (length (gen_state v))"
  by (simp add: enter_chunk_def PushFunctionState_def split: prod.splits)

lemma gen_state_leave_chunk: "gen_state (leave_chunk fa v) = gen_state v"
  by (simp add: leave_chunk_def split: prod.splits)



section \<open>The properties of the specification\<close>

subsection \<open>Chunks\<close>



text \<open>C8. A visit of a chunk that returns leaves the stack of function states one deeper
  than it found it: the state pushed on entry is still there. So the visit of the chunk
  with an empty block starts with no function state and returns with one.\<close>

theorem chunk_keeps_function_state:
  "(case visit_Chunk (Chunk block md) v of
      Inl e \<Rightarrow> True
    | Inr v' \<Rightarrow> length (gen_state v') = Suc (length (gen_state v))) \<and>
   length (gen_state (GenerateVisitor new_State)) = 0 \<and>
   (case visit_Chunk (Chunk (Block [] None) ''main'') (GenerateVisitor new_State) of
      Inl e \<Rightarrow> False
    | Inr v' \<Rightarrow> length (gen_state v') = 1)"
proof (intro conjI)
  show "case visit_Chunk (Chunk block md) v of
      Inl e \<Rightarrow> True
    | Inr v' \<Rightarrow> length (gen_state v') = Suc (length (gen_state v))"
  proof (cases "visit_Chunk (Chunk block md) v")
    case (Inl e)
    then show ?thesis by simp
  next
    case (Inr v')
    then obtain v2 where b: "visit block (snd (enter_chunk md v)) = Inr v2"
      and v': "v' = leave_chunk (fst (enter_chunk md v)) v2"
      by (auto split: prod.splits sum.splits)
    from b have "frame (snd (enter_chunk md v)) v2" by (rule visit_frame)
    then have "length (gen_state v2) = Suc (length (gen_state v))"
      by (simp add: frame_def length_gen_state_enter_chunk)
    with Inr v' show ?thesis by (simp add: gen_state_leave_chunk)
  qed
qed (simp_all add: run_defs)


subsection \<open>Emitted code and registers\<close>

text \<open>C2, as claimed: the statement \<open>local a, b = 1, 2\<close> would emit
  \<open>LoadConst 0 0; LoadConst 1 1; Move 0 0; Move 1 1; SetTop 0\<close>. It does not.\<close>

theorem local_a_b_claimed_code_counterexample:
  "map_option (\<lambda>f. map fst (opcodes f)) (compiled (visit local_a_b at_block_start)) \<noteq>
     Some [ABCode OpType_LoadConst 0 0, ABCode OpType_LoadConst 1 1,
           ABCode OpType_Move 0 0, ABCode OpType_Move 1 1, ACode OpType_SetTop 0]"
  by (simp add: run_defs)

text \<open>C2, amended. Visited as the first statement of the block of a chunk,
  \<open>local a, b = 1, 2\<close> yields the constant pool 1, 2 and emits exactly
  \<open>LoadConst 2 0; LoadConst 3 1; Move 0 2; Move 1 3; SetTop 2\<close>: the names take the
  registers 0 and 1 first, the values are loaded into the temporaries above them and moved
  down. Afterwards \<open>a\<close> is in scope at register 0 and \<open>b\<close> at register 1.\<close>

theorem local_a_b_code:
  "map_option (\<lambda>f. (const_numbers f, map fst (opcodes f))) (compiled (visit local_a_b at_block_start)) =
     Some ([1, 2],
           [ABCode OpType_LoadConst 2 0, ABCode OpType_LoadConst 3 1,
            ABCode OpType_Move 0 2, ABCode OpType_Move 1 3, ACode OpType_SetTop 2]) \<and>
   (case visit local_a_b at_block_start of
      Inl e \<Rightarrow> False
    | Inr v \<Rightarrow> name_list (scope_name_list v) =
        [\<lparr>name = ''a'', register = 0\<rparr>, \<lparr>name = ''b'', register = 1\<rparr>])"
  by (simp add: run_defs)

text \<open>C3. The call \<open>print("hi")\<close> visited as a statement declares no local, and the
  watermark is 0 before the visit and 2 after it: the registers of the callee and of the
  argument are not given back, and a local declared by the next statement of the block
  takes register 2.\<close>

theorem call_statement_moves_watermark:
  "map_option next_register (compiled (Inr at_block_start)) = Some 0 \<and>
   map_option next_register (compiled (visit print_hi at_block_start)) = Some 2 \<and>
   (case visit_statements [print_hi, local_c] at_block_start of
      Inl e \<Rightarrow> False
    | Inr v \<Rightarrow> name_list (scope_name_list v) = [\<lparr>name = ''c'', register = 2\<rparr>])"
  by (simp add: run_defs)


subsection \<open>The value-count stacks\<close>

text \<open>C4, as claimed: every visit would leave as many counts as it found. The statement
  \<open>local a = <binary expression>\<close>, visited with both stacks empty, leaves the count
  pushed for the expression on \<open>exp_value_count_\<close>: the visitor of a binary expression
  has an empty body and pops nothing.\<close>

theorem local_binary_leaves_count_counterexample:
  "value_counts at_block_start = ([], []) \<and>
   (case visit local_a_binary at_block_start of
      Inl e \<Rightarrow> False
    | Inr v \<Rightarrow> value_counts v = ([1], []))"
  by (simp add: run_defs value_counts_def)

text \<open>C4, amended. When every expression position of a tree holds a terminator or a
  function call and every expression list position an expression list
  (\<open>pops t = Some (k, l)\<close>), a visit of the tree that returns has removed exactly \<open>k\<close>
  entries from \<open>exp_value_count_\<close> and \<open>l\<close> from \<open>exp_list_value_count_\<close>, as far as
  they were there, and has left the entries below them as they were: an expression removes
  the one count pushed for it, an expression list the one list count pushed for it, a name
  list and a local declaration none, and a call visited as a statement, for which nothing
  is pushed, removes a count only if one is there. The visit of a chunk whose block is
  such a tree ends with both stacks of the chunk's function state empty, as they began.\<close>

theorem value_counts_balanced:
  "(pops t = Some (k, l) \<longrightarrow> visit t v = Inr v' \<longrightarrow>
      value_counts v' = (drop k (fst (value_counts v)), drop l (snd (value_counts v)))) \<and>
   (pops block = Some (k, l) \<longrightarrow> visit_Chunk (Chunk block md) v = Inr v' \<longrightarrow>
      value_counts v' = ([], []))"
proof (intro conjI impI)
  assume "pops t = Some (k, l)" "visit t v = Inr v'"
  then show "value_counts v' = (drop k (fst (value_counts v)), drop l (snd (value_counts v)))"
    by (rule visit_balance)
next
  assume p: "pops block = Some (k, l)" and c: "visit_Chunk (Chunk block md) v = Inr v'"
  from c obtain v2 where b: "visit block (snd (enter_chunk md v)) = Inr v2"
    and v': "v' = leave_chunk (fst (enter_chunk md v)) v2"
    by (auto split: prod.splits sum.splits)
  from visit_balance [OF p b] have "value_counts v2 = ([], [])"
    by (simp add: value_counts_enter_chunk)
  with v' show "value_counts v' = ([], [])" by simp
qed

text \<open>The call \<open>print("hi")\<close> visited after a push of 3 removes that count; the chunk
  \<open>local a, b = 1, 2; print("hi")\<close> ends with both stacks empty.\<close>

theorem value_counts_balanced_witness:
  "pops print_hi = Some (1, 0) \<and>
   (\<exists>v1 v'. v_PushExpValueCount 3 at_block_start = Inr v1 \<and> visit print_hi v1 = Inr v' \<and>
      value_counts v1 = ([3], []) \<and> value_counts v' = ([], [])) \<and>
   pops (Block [local_a_b, print_hi] None) = Some (1, 0) \<and>
   (\<exists>v'. visit_Chunk (Chunk (Block [local_a_b, print_hi] None) ''main'') (GenerateVisitor new_State) = Inr v' \<and>
      value_counts v' = ([], []))"
proof -
  obtain v1 where v1: "v_PushExpValueCount 3 at_block_start = Inr v1"
    by (simp add: run_defs)
  obtain v' where v': "visit print_hi v1 = Inr v'"
    using v1 by (auto simp add: run_defs)
  obtain w where w: "visit_Chunk (Chunk (Block [local_a_b, print_hi] None) ''main'') (GenerateVisitor new_State) = Inr w"
    by (simp add: run_defs)
  have p1: "pops print_hi = Some (1, 0)" by (simp add: print_hi_def)
  have p2: "pops (Block [local_a_b, print_hi] None) = Some (1, 0)"
    by (simp add: print_hi_def local_a_b_def)
  have c1: "value_counts v1 = ([3], [])"
    using v1 by (auto simp add: run_defs value_counts_def)
  from value_counts_balanced [where t = print_hi and k = 1 and l = 0 and v = v1 and v' = v'] p1 v' c1
  have "value_counts v' = ([], [])" by simp
  moreover from value_counts_balanced [where block = "Block [local_a_b, print_hi] None" and md = "''main''"
      and v = "GenerateVisitor new_State" and v' = w and k = 1 and l = 0] p2 w
  have "value_counts w = ([], [])" by simp
  ultimately show ?thesis using p1 p2 v1 v' w c1 by simp
qed

text \<open>C5. With a current function state, the visit of an expression list takes the top
  of \<open>exp_list_value_count_\<close> off that stack as \<open>V\<close> (0 when the stack is empty, which
  then stays empty) and then, for each expression in order, puts a count on top of
  \<open>exp_value_count_\<close> and visits the expression. The counts are those of the
  specification (\<open>exp_counts\<close>): 0 if \<open>V\<close> is 0; otherwise \<open>V\<close> for the last expression
  and 1 for an earlier one, \<open>V\<close> being decremented by the count pushed unless it is the
  sentinel. For a list of expressions whose visitors leave the state alone the counts are
  therefore all on \<open>exp_value_count_\<close> afterwards, the last one on top. Every count but
  the last of a list is 0 or 1: only the last expression may be asked for more than one
  value. In closed form: with \<open>V = 0\<close> every expression gets 0; with the sentinel every
  expression gets 1 and the last one the sentinel; with \<open>V\<close> at least the number of
  expressions every expression gets 1 and the last one what is left; with fewer values
  than expressions the first \<open>V\<close> expressions get 1 and the others 0.\<close>

theorem expression_list_counts:
  fixes fs :: FunctionGenerateState
  assumes "func_state v = Some i" and "i < length (gen_state v)" and "gen_state v ! i = fs"
  shows "visit (ExpressionList es) v =
     hand_counts i
       (zip (exp_counts (case exp_list_value_count fs of [] \<Rightarrow> 0 | x # xs \<Rightarrow> x) (length es)) es)
       (v\<lparr>gen_state := (gen_state v)
          [i := fs\<lparr>exp_list_value_count := tl (exp_list_value_count fs)\<rparr>]\<rparr>) \<and>
   visit (ExpressionList (replicate n BinaryExpression)) v =
     Inr (v\<lparr>gen_state := (gen_state v)
        [i := fs\<lparr>exp_value_count :=
                  rev (exp_counts (case exp_list_value_count fs of [] \<Rightarrow> 0 | x # xs \<Rightarrow> x) n) @
                  exp_value_count fs,
                exp_list_value_count := tl (exp_list_value_count fs)\<rparr>]\<rparr>) \<and>
   set (butlast (exp_counts V n)) \<subseteq> {0, 1} \<and>
   exp_counts 0 n = replicate n 0 \<and>
   exp_counts EXP_VALUE_COUNT_ANY (Suc n) = replicate n 1 @ [EXP_VALUE_COUNT_ANY] \<and>
   exp_counts (int n + int k + 1) (Suc n) = replicate n 1 @ [int k + 1] \<and>
   exp_counts (int m) (m + Suc k) = replicate m 1 @ replicate (Suc k) 0"
proof (intro conjI)
  let ?V = "case exp_list_value_count fs of [] \<Rightarrow> 0 | x # xs \<Rightarrow> x"
  let ?v1 = "v\<lparr>gen_state := (gen_state v)
          [i := fs\<lparr>exp_list_value_count := tl (exp_list_value_count fs)\<rparr>]\<rparr>"
  have p: "v_PopExpListValueCount v = Inr (?V, ?v1)"
    using v_PopExpListValueCount_explicit [OF assms(1,2)] assms(3) by simp
  have i1: "func_state ?v1 = Some i" "i < length (gen_state ?v1)"
    using assms by simp_all
  show g: "visit (ExpressionList es) v = hand_counts i (zip (exp_counts ?V (length es)) es) ?v1" for es
    by (simp add: p visit_expressions_hand_counts [OF i1])
  have "visit (ExpressionList (replicate n BinaryExpression)) v =
      hand_counts i (zip (exp_counts ?V n) (replicate (length (exp_counts ?V n)) BinaryExpression)) ?v1"
    using g [of "replicate n BinaryExpression"] by simp
  also have "\<dots> = Inr (?v1\<lparr>gen_state := (gen_state ?v1)
        [i := (gen_state ?v1 ! i)\<lparr>exp_value_count := rev (exp_counts ?V n) @ exp_value_count (gen_state ?v1 ! i)\<rparr>]\<rparr>)"
    using i1(2) by (rule hand_counts_placeholders)
  also have "\<dots> = Inr (v\<lparr>gen_state := (gen_state v)
        [i := fs\<lparr>exp_value_count := rev (exp_counts ?V n) @ exp_value_count fs,
                exp_list_value_count := tl (exp_list_value_count fs)\<rparr>]\<rparr>)"
    using assms(2) by (cases fs) simp
  finally show "visit (ExpressionList (replicate n BinaryExpression)) v =
     Inr (v\<lparr>gen_state := (gen_state v)
        [i := fs\<lparr>exp_value_count := rev (exp_counts ?V n) @ exp_value_count fs,
                exp_list_value_count := tl (exp_list_value_count fs)\<rparr>]\<rparr>)" .
qed (rule exp_counts_butlast exp_counts_zero exp_counts_any exp_counts_enough exp_counts_short)+

text \<open>A list of two binary expressions visited with 3 on \<open>exp_list_value_count_\<close>: the 3
  is taken off, and 1 and then 2 are put on \<open>exp_value_count_\<close>.\<close>

theorem expression_list_counts_witness:
  "\<exists>v1 v'. v_PushExpListValueCount 3 at_block_start = Inr v1 \<and>
     func_state v1 = Some 0 \<and>
     gen_state v1 = [\<lparr>names_register = [], exp_value_count = [], exp_list_value_count = [3]\<rparr>] \<and>
     visit (ExpressionList [BinaryExpression, BinaryExpression]) v1 = Inr v' \<and>
     gen_state v' = [\<lparr>names_register = [], exp_value_count = [2, 1], exp_list_value_count = []\<rparr>]"
proof -
  let ?fs = "\<lparr>names_register = [], exp_value_count = [], exp_list_value_count = [3]\<rparr>"
  obtain v1 where v1: "v_PushExpListValueCount 3 at_block_start = Inr v1"
    by (simp add: run_defs)
  have h1: "func_state v1 = Some 0" using v1 by (auto simp add: run_defs)
  have g: "gen_state v1 = [?fs]" using v1 by (auto simp add: run_defs)
  have h2: "0 < length (gen_state v1)" by (simp add: g)
  have h3: "gen_state v1 ! 0 = ?fs" by (simp add: g)
  have r: "replicate 2 BinaryExpression = [BinaryExpression, BinaryExpression]"
    by (simp add: numeral_2_eq_2)
  have c: "exp_counts 3 2 = [1, 2]"
    by (simp add: numeral_2_eq_2 EXP_VALUE_COUNT_ANY_def)
  from expression_list_counts [OF h1 h2 h3, THEN conjunct2, THEN conjunct1, of 2]
  have "visit (ExpressionList [BinaryExpression, BinaryExpression]) v1 =
      Inr (v1\<lparr>gen_state := [\<lparr>names_register = [], exp_value_count = [2, 1], exp_list_value_count = []\<rparr>]\<rparr>)"
    by (simp add: r c g del: visit.simps)
  with v1 h1 g show ?thesis by (simp del: visit.simps)
qed

text \<open>C10. A pop from an empty stack of value counts returns 0 and leaves the state as it
  is. When the block of a chunk visits the call \<open>print("hi")\<close> as a statement both stacks
  are empty, nothing having been pushed for the call; the visit succeeds and the
  \<open>Call\<close> instruction it emits expects 0 results.\<close>

theorem pop_on_empty_stack:
  "PopExpValueCount (fs\<lparr>exp_value_count := []\<rparr>) = (0, fs\<lparr>exp_value_count := []\<rparr>) \<and>
   PopExpListValueCount (fs\<lparr>exp_list_value_count := []\<rparr>) = (0, fs\<lparr>exp_list_value_count := []\<rparr>) \<and>
   value_counts at_block_start = ([], []) \<and>
   map_option (\<lambda>f. map fst (opcodes f)) (compiled (visit print_hi at_block_start)) =
     Some [ABCode OpType_LoadConst 0 0, ABCCode OpType_GetUpTable 0 ENV_TABLE_INDEX 0,
           ABCode OpType_LoadConst 1 1, AsBxCode OpType_Call 0 0]"
  by (simp add: run_defs value_counts_def)

subsection \<open>Names and scopes\<close>

text \<open>C6. The visit of a name list handles its names in order. For an identifier, with a
  current function, a current scope and a current function state, the names of the
  current scope being the entries of the name list from the start index of the scope on:
  if none of them has the name, the name is added to the list at the next register, the
  watermark moves up by one and that register is recorded with the token in the buffer of
  pending names, whether or not an enclosing scope has the name; if one of them has the
  name, the scope name list and the watermark stay as they are and the register of the
  first such entry is recorded with the token. A name visited again right after it was
  added is found, and the register it was given then is recorded again.\<close>

theorem name_list_adds_name:
  fixes f :: Function and fs :: FunctionGenerateState and pre post :: "ScopeName list"
  assumes "token n = Token_Id" and "cur_func v = Inr f"
    and "current_scope (scope_name_list v) = s # prev" and "cur_fstate v = Inr fs"
  shows
   "(str n \<notin> name ` set (drop (start s) (name_list (scope_name_list v))) \<longrightarrow>
      (\<exists>v'. visit (NameList [n]) v = Inr v' \<and>
         current_scope (scope_name_list v') = current_scope (scope_name_list v) \<and>
         name_list (scope_name_list v') =
           name_list (scope_name_list v) @ [\<lparr>name = str n, register = next_register f\<rparr>] \<and>
         cur_func v' = Inr (f\<lparr>next_register := next_register f + 1\<rparr>) \<and>
         cur_fstate v' = Inr (fs\<lparr>names_register := names_register fs @
           [\<lparr>nr_register = next_register f, nr_token = n\<rparr>]\<rparr>))) \<and>
    (drop (start s) (name_list (scope_name_list v)) = pre @ \<lparr>name = str n, register = r\<rparr> # post \<longrightarrow>
     str n \<notin> name ` set pre \<longrightarrow>
      (\<exists>v'. visit (NameList [n]) v = Inr v' \<and>
         scope_name_list v' = scope_name_list v \<and>
         cur_func v' = Inr f \<and>
         cur_fstate v' = Inr (fs\<lparr>names_register := names_register fs @
           [\<lparr>nr_register = r, nr_token = n\<rparr>]\<rparr>))) \<and>
    (str n \<notin> name ` set (drop (start s) (name_list (scope_name_list v))) \<longrightarrow>
     start s \<le> length (name_list (scope_name_list v)) \<longrightarrow>
      (\<exists>v' v''. visit (NameList [n]) v = Inr v' \<and> visit (NameList [n]) v' = Inr v'' \<and>
         scope_name_list v'' = scope_name_list v' \<and>
         cur_func v'' = Inr (f\<lparr>next_register := next_register f + 1\<rparr>) \<and>
         cur_fstate v'' = Inr (fs\<lparr>names_register := names_register fs @
           [\<lparr>nr_register = next_register f, nr_token = n\<rparr>,
            \<lparr>nr_register = next_register f, nr_token = n\<rparr>]\<rparr>))) \<and>
    visit (NameList (n # ns)) v = and_then (visit (NameList [n]) v) (\<lambda>v1. visit (NameList ns) v1)"
proof (intro conjI impI)
  let ?names = "name_list (scope_name_list v)"
  have new: "\<exists>v'. add_name n v = Inr v' \<and>
       name_list (scope_name_list v') = ?names @ [\<lparr>name = str n, register = next_register f\<rparr>] \<and>
       current_scope (scope_name_list v') = current_scope (scope_name_list v) \<and>
       cur_func v' = Inr (f\<lparr>next_register := next_register f + 1\<rparr>) \<and>
       cur_fstate v' = Inr (fs\<lparr>names_register := names_register fs @
          [\<lparr>nr_register = next_register f, nr_token = n\<rparr>]\<rparr>)"
    if "str n \<notin> name ` set (drop (start s) ?names)"
    using add_name_new [OF assms] that by (simp add: IsBelongsToScope_def find_name_absent)
  have old: "\<exists>v'. add_name n w = Inr v' \<and> scope_name_list v' = scope_name_list w \<and>
       cur_func v' = Inr g \<and>
       cur_fstate v' = Inr (gs\<lparr>names_register := names_register gs @
          [\<lparr>nr_register = r', nr_token = n\<rparr>]\<rparr>)"
    if "cur_func w = Inr g" "current_scope (scope_name_list w) = s # prev" "cur_fstate w = Inr gs"
      "drop (start s) (name_list (scope_name_list w)) = pre' @ \<lparr>name = str n, register = r'\<rparr> # post'"
      "str n \<notin> name ` set pre'"
    for w r' pre' post' and g :: Function and gs :: FunctionGenerateState
    using add_name_old [OF assms(1) that(1-3), of r'] that(4,5)
    by (simp add: IsBelongsToScope_def find_name_first)
  {
    assume "str n \<notin> name ` set (drop (start s) ?names)"
    from new [OF this]
    show "\<exists>v'. visit (NameList [n]) v = Inr v' \<and>
         current_scope (scope_name_list v') = current_scope (scope_name_list v) \<and>
         name_list (scope_name_list v') = ?names @ [\<lparr>name = str n, register = next_register f\<rparr>] \<and>
         cur_func v' = Inr (f\<lparr>next_register := next_register f + 1\<rparr>) \<and>
         cur_fstate v' = Inr (fs\<lparr>names_register := names_register fs @
           [\<lparr>nr_register = next_register f, nr_token = n\<rparr>]\<rparr>)"
      by auto
  }
  {
    assume "drop (start s) ?names = pre @ \<lparr>name = str n, register = r\<rparr> # post"
      and "str n \<notin> name ` set pre"
    from old [OF assms(2-4) this]
    show "\<exists>v'. visit (NameList [n]) v = Inr v' \<and>
         scope_name_list v' = scope_name_list v \<and>
         cur_func v' = Inr f \<and>
         cur_fstate v' = Inr (fs\<lparr>names_register := names_register fs @
           [\<lparr>nr_register = r, nr_token = n\<rparr>]\<rparr>)"
      by auto
  }
  {
    assume a: "str n \<notin> name ` set (drop (start s) ?names)"
      and b: "start s \<le> length ?names"
    from new [OF a] obtain v' where v': "add_name n v = Inr v'"
      and n': "name_list (scope_name_list v') = ?names @ [\<lparr>name = str n, register = next_register f\<rparr>]"
      and c': "current_scope (scope_name_list v') = s # prev"
      and f': "cur_func v' = Inr (f\<lparr>next_register := next_register f + 1\<rparr>)"
      and s': "cur_fstate v' = Inr (fs\<lparr>names_register := names_register fs @
           [\<lparr>nr_register = next_register f, nr_token = n\<rparr>]\<rparr>)"
      by (auto simp: assms(3))
    from n' b have d: "drop (start s) (name_list (scope_name_list v')) =
        drop (start s) ?names @ \<lparr>name = str n, register = next_register f\<rparr> # []"
      by simp
    from old [OF f' c' s' d a] obtain v'' where "add_name n v' = Inr v''"
      "scope_name_list v'' = scope_name_list v'"
      "cur_func v'' = Inr (f\<lparr>next_register := next_register f + 1\<rparr>)"
      "cur_fstate v'' = Inr (fs\<lparr>names_register := names_register fs @
           [\<lparr>nr_register = next_register f, nr_token = n\<rparr>,
            \<lparr>nr_register = next_register f, nr_token = n\<rparr>]\<rparr>)"
      by auto
    with v' show "\<exists>v' v''. visit (NameList [n]) v = Inr v' \<and> visit (NameList [n]) v' = Inr v'' \<and>
         scope_name_list v'' = scope_name_list v' \<and>
         cur_func v'' = Inr (f\<lparr>next_register := next_register f + 1\<rparr>) \<and>
         cur_fstate v'' = Inr (fs\<lparr>names_register := names_register fs @
           [\<lparr>nr_register = next_register f, nr_token = n\<rparr>,
            \<lparr>nr_register = next_register f, nr_token = n\<rparr>]\<rparr>)"
      by auto
  }
  show "visit (NameList (n # ns)) v =
       and_then (visit (NameList [n]) v) (\<lambda>v1. visit (NameList ns) v1)"
    by (simp split: sum.splits)
qed

text \<open>In an inner scope that starts at index 2, below an outer scope that holds \<open>a\<close> and
  \<open>b\<close>: \<open>c\<close> is new and takes register 2; \<open>b\<close>, a name of the outer scope only, is
  new to the inner scope and takes register 3; \<open>b\<close> visited again is found behind \<open>c\<close>
  and register 3 is recorded again, the watermark staying at 4.\<close>

theorem name_list_adds_name_witness:
  "\<exists>v1 v2 v3.
     map_sum id next_register (cur_func in_inner_scope) = Inr 2 \<and>
     name_list (scope_name_list in_inner_scope) =
       [\<lparr>name = ''a'', register = 0\<rparr>, \<lparr>name = ''b'', register = 1\<rparr>] \<and>
     map start (current_scope (scope_name_list in_inner_scope)) = [2, 0] \<and>
     visit (NameList [id_token ''c'' 3]) in_inner_scope = Inr v1 \<and>
     visit (NameList [id_token ''b'' 3]) v1 = Inr v2 \<and>
     map_sum id next_register (cur_func v2) = Inr 4 \<and>
     visit (NameList [id_token ''b'' 4]) v2 = Inr v3 \<and>
     name_list (scope_name_list v3) =
       [\<lparr>name = ''a'', register = 0\<rparr>, \<lparr>name = ''b'', register = 1\<rparr>,
        \<lparr>name = ''c'', register = 2\<rparr>, \<lparr>name = ''b'', register = 3\<rparr>] \<and>
     map_sum id next_register (cur_func v3) = Inr 4 \<and>
     map_sum id names_register (cur_fstate v3) =
       Inr [\<lparr>nr_register = 2, nr_token = id_token ''c'' 3\<rparr>,
            \<lparr>nr_register = 3, nr_token = id_token ''b'' 3\<rparr>,
            \<lparr>nr_register = 3, nr_token = id_token ''b'' 4\<rparr>]"
proof -
  let ?s = "\<lparr>start = 2, owner = Some (Suc 0)\<rparr>"
  let ?p = "[\<lparr>start = 0, owner = Some (Suc 0)\<rparr>]"
  let ?a = "\<lparr>name = ''a'', register = 0\<rparr>"
  let ?b = "\<lparr>name = ''b'', register = 1\<rparr>"
  obtain f0 :: Function where f0: "cur_func in_inner_scope = Inr f0" and r0: "next_register f0 = 2"
    by (simp add: run_defs)
  have s0: "cur_fstate in_inner_scope = Inr new_FunctionGenerateState"
    by (simp add: run_defs)
  have c0: "current_scope (scope_name_list in_inner_scope) = ?s # ?p"
    by (simp add: run_defs)
  have n0: "name_list (scope_name_list in_inner_scope) = [?a, ?b]"
    by (simp add: run_defs)
  have t: "token (id_token x l) = Token_Id" "str (id_token x l) = x" for x l
    by (simp_all add: id_token_def)
  from name_list_adds_name [OF t(1) f0 c0 s0, THEN conjunct1, of "''c''" 3]
  obtain v1 where v1: "visit (NameList [id_token ''c'' 3]) in_inner_scope = Inr v1"
    and c1: "current_scope (scope_name_list v1) = ?s # ?p"
    and n1: "name_list (scope_name_list v1) = [?a, ?b, \<lparr>name = ''c'', register = 2\<rparr>]"
    and f1: "cur_func v1 = Inr (f0\<lparr>next_register := 3\<rparr>)"
    and s1: "cur_fstate v1 = Inr (new_FunctionGenerateState\<lparr>names_register :=
        [\<lparr>nr_register = 2, nr_token = id_token ''c'' 3\<rparr>]\<rparr>)"
    by (auto simp: t c0 n0 r0 new_FunctionGenerateState_def simp del: visit.simps)
  from name_list_adds_name [OF t(1) f1 c1 s1, THEN conjunct1, of "''b''" 3]
  obtain v2 where v2: "visit (NameList [id_token ''b'' 3]) v1 = Inr v2"
    and c2: "current_scope (scope_name_list v2) = ?s # ?p"
    and n2: "name_list (scope_name_list v2) =
        [?a, ?b, \<lparr>name = ''c'', register = 2\<rparr>, \<lparr>name = ''b'', register = 3\<rparr>]"
    and f2: "cur_func v2 = Inr (f0\<lparr>next_register := 4\<rparr>)"
    and s2: "cur_fstate v2 = Inr (new_FunctionGenerateState\<lparr>names_register :=
        [\<lparr>nr_register = 2, nr_token = id_token ''c'' 3\<rparr>,
         \<lparr>nr_register = 3, nr_token = id_token ''b'' 3\<rparr>]\<rparr>)"
    by (auto simp: t c1 n1 new_FunctionGenerateState_def simp del: visit.simps)
  have d: "drop (start ?s) (name_list (scope_name_list v2)) =
      [\<lparr>name = ''c'', register = 2\<rparr>] @ \<lparr>name = str (id_token ''b'' 4), register = 3\<rparr> # []"
    by (simp add: n2 t)
  have e: "str (id_token ''b'' 4) \<notin> name ` set [\<lparr>name = ''c'', register = 2\<rparr>]"
    by (simp add: t)
  from name_list_adds_name [OF t(1) f2 c2 s2, THEN conjunct2, THEN conjunct1, rule_format, OF d e]
  obtain v3 where v3: "visit (NameList [id_token ''b'' 4]) v2 = Inr v3"
    and n3: "scope_name_list v3 = scope_name_list v2"
    and f3: "cur_func v3 = Inr (f0\<lparr>next_register := 4\<rparr>)"
    and s3: "cur_fstate v3 = Inr (new_FunctionGenerateState\<lparr>names_register :=
        [\<lparr>nr_register = 2, nr_token = id_token ''c'' 3\<rparr>,
         \<lparr>nr_register = 3, nr_token = id_token ''b'' 3\<rparr>,
         \<lparr>nr_register = 3, nr_token = id_token ''b'' 4\<rparr>]\<rparr>)"
    by (auto simp: new_FunctionGenerateState_def simp del: visit.simps)
  from f0 r0 n0 c0 v1 v2 f2 v3 n3 n2 f3 s3 show ?thesis
    by (simp add: new_FunctionGenerateState_def del: visit.simps)
qed

text \<open>C7. Leaving a scope truncates the list of names to its length at entry: whatever
  names were added after the scope was entered, the exit gives back the list and the chain
  of scopes as they were at entry. A visit of a block, which enters a scope and leaves it
  on return, therefore ends with the scope name list it began with, and every name
  resolves after the visit exactly as it did before: a name of an enclosing scope as
  before, a name defined only in the block no more than before.\<close>

theorem scope_exit_truncates:
  "(NameScope_enter ow l = Inr l1 \<longrightarrow>
      NameScope_exit (l1\<lparr>name_list := name_list l1 @ ext\<rparr>) = Inr l) \<and>
   (visit (Block stmts ret) v = Inr v' \<longrightarrow>
      scope_name_list v' = scope_name_list v \<and>
      resolve (scope_name_list v') n = resolve (scope_name_list v) n)"
proof (intro conjI impI)
  assume "NameScope_enter ow l = Inr l1"
  then show "NameScope_exit (l1\<lparr>name_list := name_list l1 @ ext\<rparr>) = Inr l"
    by (rule enter_exit)
next
  assume "visit (Block stmts ret) v = Inr v'"
  then show "scope_name_list v' = scope_name_list v"
    by (rule visit_Block_scope)
  then show "resolve (scope_name_list v') n = resolve (scope_name_list v) n"
    by simp
qed

text \<open>After \<open>local a, b = 1, 2\<close>, a block holding \<open>local c = 3\<close>: inside the block
  \<open>c\<close> resolves; after it \<open>a\<close> still resolves and \<open>c\<close> does not.\<close>

theorem scope_exit_truncates_witness:
  "\<exists>w v' l1. visit local_a_b at_block_start = Inr w \<and>
     resolve (scope_name_list w) ''a'' \<noteq> None \<and> resolve (scope_name_list w) ''c'' = None \<and>
     NameScope_enter (func w) (scope_name_list w) = Inr l1 \<and>
     resolve (l1\<lparr>name_list := name_list l1 @ [\<lparr>name = ''c'', register = 2\<rparr>]\<rparr>) ''c'' \<noteq> None \<and>
     NameScope_exit (l1\<lparr>name_list := name_list l1 @ [\<lparr>name = ''c'', register = 2\<rparr>]\<rparr>) =
       Inr (scope_name_list w) \<and>
     visit (Block [local_c] None) w = Inr v' \<and>
     scope_name_list v' = scope_name_list w \<and>
     resolve (scope_name_list v') ''a'' \<noteq> None \<and> resolve (scope_name_list v') ''c'' = None"
proof -
  obtain w where w: "visit local_a_b at_block_start = Inr w"
    by (simp add: run_defs)
  obtain l1 where l1: "NameScope_enter (func w) (scope_name_list w) = Inr l1"
    using w by (auto simp add: run_defs)
  obtain v' where v': "visit (Block [local_c] None) w = Inr v'"
    using w by (auto simp add: run_defs)
  have a: "resolve (scope_name_list w) ''a'' \<noteq> None" "resolve (scope_name_list w) ''c'' = None"
    using w by (auto simp add: run_defs)
  have c: "resolve (l1\<lparr>name_list := name_list l1 @ [\<lparr>name = ''c'', register = 2\<rparr>]\<rparr>) ''c'' \<noteq> None"
    using w l1 by (auto simp add: run_defs)
  from scope_exit_truncates [where ow = "func w" and l = "scope_name_list w" and ?l1.0 = l1
      and ext = "[\<lparr>name = ''c'', register = 2\<rparr>]" and stmts = "[local_c]" and ret = None
      and v = w and v' = v'] l1 v'
  have e: "NameScope_exit (l1\<lparr>name_list := name_list l1 @ [\<lparr>name = ''c'', register = 2\<rparr>]\<rparr>) =
       Inr (scope_name_list w)"
    and s: "scope_name_list v' = scope_name_list w"
    by simp_all
  from w l1 v' a c e s show ?thesis by simp
qed

subsection \<open>The allocators of the collector\<close>

text \<open>C9. Without a generation argument \<open>NewTable\<close>, \<open>NewClosure\<close> and \<open>NewString\<close> place
  the new object in generation 0 and \<open>NewFunction\<close> places it in generation 2; with an
  argument each of the four places it in the generation given. The object records that
  generation and is the head of the list of that generation.\<close>

theorem allocators_generation:
  "map_option generation (heap (snd (NewTable None g)) (fst (NewTable None g))) = Some GCGen0 \<and>
   map_option generation (heap (snd (NewClosure None g)) (fst (NewClosure None g))) = Some GCGen0 \<and>
   map_option generation (heap (snd (NewString None g)) (fst (NewString None g))) = Some GCGen0 \<and>
   map_option generation (heap (snd (NewFunction None g)) (fst (NewFunction None g))) = Some GCGen2 \<and>
   map_option generation (heap (snd (NewTable (Some gn) g)) (fst (NewTable (Some gn) g))) = Some gn \<and>
   map_option generation (heap (snd (NewClosure (Some gn) g)) (fst (NewClosure (Some gn) g))) = Some gn \<and>
   map_option generation (heap (snd (NewString (Some gn) g)) (fst (NewString (Some gn) g))) = Some gn \<and>
   map_option generation (heap (snd (NewFunction (Some gn) g)) (fst (NewFunction (Some gn) g))) = Some gn \<and>
   gen (gen_info GCGen0 (snd (NewTable None g))) = Some (fst (NewTable None g)) \<and>
   gen (gen_info GCGen0 (snd (NewClosure None g))) = Some (fst (NewClosure None g)) \<and>
   gen (gen_info GCGen0 (snd (NewString None g))) = Some (fst (NewString None g)) \<and>
   gen (gen_info GCGen2 (snd (NewFunction None g))) = Some (fst (NewFunction None g)) \<and>
   gen (gen_info gn (snd (NewTable (Some gn) g))) = Some (fst (NewTable (Some gn) g)) \<and>
   gen (gen_info gn (snd (NewClosure (Some gn) g))) = Some (fst (NewClosure (Some gn) g)) \<and>
   gen (gen_info gn (snd (NewString (Some gn) g))) = Some (fst (NewString (Some gn) g)) \<and>
   gen (gen_info gn (snd (NewFunction (Some gn) g))) = Some (fst (NewFunction (Some gn) g))"
  by (cases gn) (simp_all add: gc_defs Let_def)

end
